theory Spec2Isabelle
  imports Complex_Main
begin

section \<open>JavaScript values and strings\<close>

text \<open>
  Request bodies, query parameters and the fields of a stored match document are JSON
  values. A JavaScript string is a list of characters; the characters of this model are
  the code units below 256. Numbers are integers here: every handler only asks whether a
  number is zero (its truthiness), and a fraction behaves there like any other non-zero
  number. \<open>JDate\<close> is a date, in milliseconds since the epoch.
\<close>

datatype jsval =
    JUndefined
  | JNull
  | JBool bool
  | JNum int
  | JStr string
  | JDate int
  | JArr "jsval list"
  | JObj "(string \<times> jsval) list"

type_synonym document = "(string \<times> jsval) list"

text \<open>Reading a property of an object: a missing property reads as \<open>undefined\<close>.\<close>

definition get_prop :: "document \<Rightarrow> string \<Rightarrow> jsval" where
  "get_prop d k = (case map_of d k of None \<Rightarrow> JUndefined | Some v \<Rightarrow> v)"

text \<open>
  Truthiness, as \<open>!x\<close> and \<open>x || y\<close> test it: \<open>undefined\<close>, \<open>null\<close>, \<open>false\<close>,
  \<open>0\<close> and the empty string are falsy, everything else (every array, object and date) is
  truthy.
\<close>

fun truthy :: "jsval \<Rightarrow> bool" where
  "truthy JUndefined = False"
| "truthy JNull = False"
| "truthy (JBool b) = b"
| "truthy (JNum n) = (n \<noteq> 0)"
| "truthy (JStr s) = (s \<noteq> [])"
| "truthy (JDate t) = True"
| "truthy (JArr xs) = True"
| "truthy (JObj kvs) = True"

definition js_or :: "jsval \<Rightarrow> jsval \<Rightarrow> jsval" where
  "js_or a b = (if truthy a then a else b)"

text \<open>
  \<open>String.prototype.trim\<close> removes white space and line terminators from both ends.
  Among the code units below 256 these are tab, line feed, vertical tab, form feed,
  carriage return, space and the no-break space.
\<close>

definition is_ws :: "char \<Rightarrow> bool" where
  "is_ws c = (c \<in> {CHR 0x09, CHR 0x0A, CHR 0x0B, CHR 0x0C, CHR 0x0D, CHR 0x20, CHR 0xA0})"

definition trim :: "string \<Rightarrow> string" where
  "trim s = rev (dropWhile is_ws (rev (dropWhile is_ws s)))"

text \<open>\<open>s.replace(/-/g, '_')\<close>: every hyphen becomes an underscore.\<close>

definition replace_hyphens :: "string \<Rightarrow> string" where
  "replace_hyphens s = map (\<lambda>c. if c = CHR ''-'' then CHR ''_'' else c) s"

text \<open>
  A thrown exception is a value. \<open>x.trim()\<close> on a value that is not a string throws a
  \<open>TypeError\<close>: numbers, booleans, arrays and JSON objects have no method \<open>trim\<close>.
\<close>

datatype exn = TypeError | ValidationFailed | DuplicateKey

fun js_trim :: "jsval \<Rightarrow> exn + string" where
  "js_trim (JStr s) = Inr (trim s)"
| "js_trim _ = Inl TypeError"

section \<open>The snapshot store\<close>

text \<open>
  The database holds named collections of match documents, written by an external feed
  and only read here. \<open>listCollections\<close> gives the names; \<open>findOne({}, {sort:
  {timestamp: -1}})\<close> gives a document with the greatest timestamp, or \<open>null\<close> for an
  empty collection. A stored snapshot carries its timestamp (a date) and its other
  fields. Among several documents with the greatest timestamp the model takes the first.
\<close>

record snapshot =
  timestamp :: int
  rest :: document

type_synonym database = "(string \<times> snapshot list) list"

definition collection_names :: "database \<Rightarrow> string list" where
  "collection_names db = map fst db"

definition collection :: "database \<Rightarrow> string \<Rightarrow> snapshot list" where
  "collection db name = (case map_of db name of None \<Rightarrow> [] | Some docs \<Rightarrow> docs)"

fun find_latest :: "snapshot list \<Rightarrow> snapshot option" where
  "find_latest [] = None"
| "find_latest (d # ds) =
     (case find_latest ds of
        None \<Rightarrow> Some d
      | Some e \<Rightarrow> if timestamp e > timestamp d then Some e else Some d)"

text \<open>The document as the handler reads it: the timestamp is one of its properties.\<close>

definition as_document :: "snapshot \<Rightarrow> document" where
  "as_document s = (''timestamp'', JDate (timestamp s)) # rest s"

section \<open>Container names\<close>

text \<open>
  The public resolver (routes/public.js) trims the link's match id, replaces the hyphens
  and prefixes \<open>match_\<close>. The direct live-score routes do the same to the raw path
  parameter, without trimming.
\<close>

definition public_collection_name :: "string \<Rightarrow> string" where
  "public_collection_name matchId =
     (let cleanMatchId = trim matchId in ''match_'' @ replace_hyphens cleanMatchId)"

definition livescore_collection_name :: "string \<Rightarrow> string" where
  "livescore_collection_name matchId = ''match_'' @ replace_hyphens matchId"

section \<open>The link directory\<close>

text \<open>
  An ApiLink document, with the fields of its schema (models/ApiLink.js). The directory
  is the list of stored links; a document's identity is its place in the list, so that
  \<open>save\<close> writes a loaded document back where it was found and
  \<open>findByIdAndDelete\<close> removes it from there. The caller's identity \<open>req.userId\<close>
  comes from the verified bearer token. Dates are milliseconds since the epoch, and
  \<open>accessCount\<close> is an integer: a JavaScript number counts exactly far beyond any
  number of requests.
\<close>

type_synonym user_id = string

record link =
  userId :: user_id
  linkId :: string
  matchId :: string
  type :: string
  isActive :: bool
  createdAt :: int
  lastAccessed :: "int option"
  accessCount :: int

type_synonym directory = "link list"

text \<open>
  \<open>findOne(filter)\<close>: the first stored document that satisfies the filter, by its place
  in the directory, or nothing.
\<close>

fun findOne :: "(link \<Rightarrow> bool) \<Rightarrow> directory \<Rightarrow> nat option" where
  "findOne P [] = None"
| "findOne P (l # ls) = (if P l then Some 0 else map_option Suc (findOne P ls))"

text \<open>
  Saving and creating run the validators of the schema: \<open>linkId\<close>, \<open>matchId\<close> and
  \<open>type\<close> are required (an empty string does not pass), and \<open>type\<close> is one of the
  enumerated names. A rejected document is thrown as an error and nothing is written.
  \<open>linkId\<close> has a unique index, so inserting a second document with a stored
  \<open>linkId\<close> is thrown as well. The schema's \<open>updatedAt\<close> stamp is not part of the
  model.
\<close>

definition link_types :: "string list" where
  "link_types = [''full'', ''alive_status'', ''points_table'']"

definition validate :: "link \<Rightarrow> bool" where
  "validate l = (linkId l \<noteq> [] \<and> matchId l \<noteq> [] \<and> type l \<noteq> [] \<and> type l \<in> set link_types)"

definition save :: "nat \<Rightarrow> link \<Rightarrow> directory \<Rightarrow> exn + directory" where
  "save i l dir = (if validate l then Inr (dir[i := l]) else Inl ValidationFailed)"

definition create :: "link \<Rightarrow> directory \<Rightarrow> exn + directory" where
  "create l dir =
     (if \<not> validate l then Inl ValidationFailed
      else if findOne (\<lambda>x. linkId x = linkId l) dir \<noteq> None then Inl DuplicateKey
      else Inr (dir @ [l]))"

definition findByIdAndDelete :: "nat \<Rightarrow> directory \<Rightarrow> directory" where
  "findByIdAndDelete i dir = take i dir @ drop (Suc i) dir"

section \<open>Responses\<close>

text \<open>
  Every response is a status and a JSON envelope. \<open>Failure status error\<close> is
  \<open>{success: false, error}\<close>; the others are the \<open>{success: true, ...}\<close> envelopes of
  the handlers, with their remaining members in the order of the source.
\<close>

datatype response =
    Failure nat string
  | LinkCreated link string
  | LinkDeleted string
  | LinkUpdated link string string
  | LinkStatus link string
  | MatchData jsval jsval jsval

fun status :: "response \<Rightarrow> nat" where
  "status (Failure st e) = st"
| "status (LinkCreated l url) = 201"
| "status (LinkDeleted m) = 200"
| "status (LinkUpdated l url m) = 200"
| "status (LinkStatus l m) = 200"
| "status (MatchData mid ts d) = 200"

section \<open>The public resolver and the direct live-score routes\<close>

text \<open>The projection of routes/public.js, by the link's type.\<close>

definition public_response_data :: "string \<Rightarrow> document \<Rightarrow> jsval" where
  "public_response_data ty latestMatch =
     (if ty = ''points_table'' then
        JObj [(''pointsTable'', js_or (get_prop latestMatch ''pointsTable'') (JArr [])),
              (''matchSummary'', js_or (get_prop latestMatch ''MatchSummary1'') (JObj []))]
      else if ty = ''alive_status'' then
        JObj [(''teamStats'', js_or (get_prop latestMatch ''TeamStats1'') (JArr [])),
              (''matchSummary'', js_or (get_prop latestMatch ''MatchSummary1'') (JObj []))]
      else if ty = ''full'' then JObj latestMatch
      else JObj [])"

text \<open>The projection of the route \<open>GET /api/livescore/:matchId\<close>, by the query's type.\<close>

definition livescore_response_data :: "jsval \<Rightarrow> document \<Rightarrow> jsval" where
  "livescore_response_data ty latestMatch =
     (if ty = JStr ''points_table'' then
        JObj [(''pointsTable'', js_or (get_prop latestMatch ''pointsTable'') (JArr [])),
              (''matchSummary'', js_or (get_prop latestMatch ''MatchSummary1'') (JObj []))]
      else if ty = JStr ''alive_status'' then
        JObj [(''teamStats'', js_or (get_prop latestMatch ''TeamStats1'') (JArr [])),
              (''matchSummary'', js_or (get_prop latestMatch ''MatchSummary1'') (JObj []))]
      else JObj [])"

text \<open>
  \<open>GET /api/public/:linkId\<close>. The handler takes the time of the request, the snapshot
  store, the directory and the token; it returns the directory after the request and
  the response. An error thrown inside is caught and answered with 500.
\<close>

definition public_get :: "int \<Rightarrow> database \<Rightarrow> directory \<Rightarrow> string \<Rightarrow> directory \<times> response" where
  "public_get now db dir lid =
     (case findOne (\<lambda>l. linkId l = lid \<and> isActive l) dir of
        None \<Rightarrow> (dir, Failure 404 ''Not found'')
      | Some i \<Rightarrow>
          let apiLink = (dir ! i)\<lparr>lastAccessed := Some now,
                                   accessCount := accessCount (dir ! i) + 1\<rparr> in
          (case save i apiLink dir of
             Inl e \<Rightarrow> (dir, Failure 500 ''Server Error'')
           | Inr dir' \<Rightarrow>
               let collectionName = public_collection_name (matchId apiLink);
                   collectionExists = (collectionName \<in> set (collection_names db))
               in if \<not> collectionExists then (dir', Failure 404 ''Match data not found'')
                  else (case find_latest (collection db collectionName) of
                          None \<Rightarrow> (dir', Failure 404 ''No match data found'')
                        | Some s \<Rightarrow>
                            let latestMatch = as_document s in
                            (dir', MatchData (get_prop latestMatch ''matchId'')
                                             (get_prop latestMatch ''timestamp'')
                                             (public_response_data (type apiLink) latestMatch)))))"

text \<open>\<open>GET /api/livescore/:matchId\<close>, with the query parameter \<open>type\<close>.\<close>

definition livescore_get :: "database \<Rightarrow> string \<Rightarrow> jsval \<Rightarrow> response" where
  "livescore_get db mid ty =
     (if \<not> truthy ty \<or> ty \<notin> set [JStr ''alive_status'', JStr ''points_table''] then
        Failure 400 (''Invalid type parameter. Use 'alive_status' or 'points_table'' @ [CHR 0x27])
      else
        let collectionName = livescore_collection_name mid;
            collectionExists = (collectionName \<in> set (collection_names db))
        in if \<not> collectionExists then Failure 404 ''Match not found''
           else (case find_latest (collection db collectionName) of
                   None \<Rightarrow> Failure 404 ''No match data found''
                 | Some s \<Rightarrow>
                     let latestMatch = as_document s in
                     MatchData (get_prop latestMatch ''matchId'')
                               (get_prop latestMatch ''timestamp'')
                               (livescore_response_data ty latestMatch)))"

text \<open>\<open>GET /api/livescore/:matchId/full\<close>.\<close>

definition livescore_get_full :: "database \<Rightarrow> string \<Rightarrow> response" where
  "livescore_get_full db mid =
     (let collectionName = livescore_collection_name mid;
          collectionExists = (collectionName \<in> set (collection_names db))
      in if \<not> collectionExists then Failure 404 ''Match not found''
         else (case find_latest (collection db collectionName) of
                 None \<Rightarrow> Failure 404 ''No match data found''
               | Some s \<Rightarrow>
                   let latestMatch = as_document s in
                   MatchData (get_prop latestMatch ''matchId'')
                             (get_prop latestMatch ''timestamp'')
                             (JObj latestMatch)))"

section \<open>Token generation\<close>

text \<open>
  \<open>Math.random()\<close> is a source of numbers in \<open>[0, 1)\<close>: the sequence of its results
  and the number of results already taken.
\<close>

type_synonym rnd = "(nat \<Rightarrow> rat) \<times> nat"

definition random :: "rnd \<Rightarrow> rat \<times> rnd" where
  "random g = (fst g (snd g), (fst g, Suc (snd g)))"

definition chars :: string where
  "chars = ''ABCDEFGHIJKLMNOPQRSTUVWXYZabcdefghijklmnopqrstuvwxyz0123456789''"

text \<open>\<open>s.charAt(k)\<close> is the empty string when \<open>k\<close> is out of range.\<close>

definition charAt :: "string \<Rightarrow> int \<Rightarrow> string" where
  "charAt s k = (if 0 \<le> k \<and> k < int (length s) then [s ! nat k] else [])"

function generateLinkId_loop :: "nat \<Rightarrow> string \<Rightarrow> rnd \<Rightarrow> string \<times> rnd" where
  "generateLinkId_loop i result g =
     (if i < 16 then
        (case random g of
           (r, g') \<Rightarrow>
             generateLinkId_loop (i + 1)
               (result @ charAt chars \<lfloor>r * rat_of_nat (length chars)\<rfloor>) g')
      else (result, g))"
  by pat_completeness auto
termination
  by (relation "measure (\<lambda>(i, result, g). 16 - i)") auto

declare generateLinkId_loop.simps [simp del]

definition generateLinkId :: "rnd \<Rightarrow> string \<times> rnd" where
  "generateLinkId g = generateLinkId_loop 0 [] g"

text \<open>
  The loop of \<open>POST /api/apilinks\<close> that looks for an unused token. Its state is the
  last token generated (none before the first attempt), \<open>isUnique\<close>, \<open>attempts\<close> and
  the random source.
\<close>

function unique_loop ::
  "directory \<Rightarrow> string option \<Rightarrow> bool \<Rightarrow> nat \<Rightarrow> rnd \<Rightarrow> string option \<times> bool \<times> nat \<times> rnd" where
  "unique_loop dir lid isUnique attempts g =
     (if \<not> isUnique \<and> attempts < 10 then
        (case generateLinkId g of
           (new, g') \<Rightarrow>
             let existingLink = findOne (\<lambda>l. linkId l = new) dir in
             unique_loop dir (Some new) (if existingLink = None then True else isUnique)
               (attempts + 1) g')
      else (lid, isUnique, attempts, g))"
  by pat_completeness auto
termination
  by (relation "measure (\<lambda>(dir, lid, isUnique, attempts, g). 10 - attempts)") auto

declare unique_loop.simps [simp del]

section \<open>The authenticated link manager\<close>

text \<open>
  \<open>xs.includes(v)\<close> on a list of strings: only a string can be a member. A value stored
  in a String path is the string itself.
\<close>

fun js_includes :: "string list \<Rightarrow> jsval \<Rightarrow> bool" where
  "js_includes xs (JStr s) = (s \<in> set xs)"
| "js_includes xs _ = False"

fun string_value :: "jsval \<Rightarrow> string" where
  "string_value (JStr s) = s"
| "string_value _ = []"

definition publicUrl :: "string \<Rightarrow> string \<Rightarrow> string" where
  "publicUrl baseUrl lid = baseUrl @ ''/api/public/'' @ lid"

text \<open>
  \<open>POST /api/apilinks\<close>. The handler takes the time, the base URL of the request, the
  caller, the body, the directory and the random source. A token that was never
  assigned would be \<open>undefined\<close>, which the schema rejects.
\<close>

definition create_link ::
  "int \<Rightarrow> string \<Rightarrow> user_id \<Rightarrow> document \<Rightarrow> directory \<Rightarrow> rnd \<Rightarrow> (directory \<times> rnd) \<times> response" where
  "create_link now baseUrl uid body dir g =
     (let mid = get_prop body ''matchId''; ty = get_prop body ''type'' in
      if \<not> truthy mid \<or> \<not> truthy ty then
        ((dir, g), Failure 400 ''Match ID and type are required'')
      else if \<not> js_includes [''full'', ''alive_status'', ''points_table''] ty then
        ((dir, g), Failure 400 ''Invalid type. Use: full, alive_status, or points_table'')
      else
        (case unique_loop dir None False 0 g of
           (lid, isUnique, attempts, g') \<Rightarrow>
             if \<not> isUnique then
               ((dir, g'), Failure 500 ''Failed to generate unique link ID'')
             else
               (case js_trim mid of
                  Inl e \<Rightarrow> ((dir, g'), Failure 500 ''Server Error'')
                | Inr trimmed \<Rightarrow>
                    (case lid of
                       None \<Rightarrow> ((dir, g'), Failure 500 ''Server Error'')
                     | Some new \<Rightarrow>
                         let apiLink = \<lparr>userId = uid, linkId = new,
                                        matchId = trimmed, type = string_value ty,
                                        isActive = True, createdAt = now,
                                        lastAccessed = None, accessCount = 0\<rparr> in
                         (case create apiLink dir of
                            Inl e \<Rightarrow> ((dir, g'), Failure 500 ''Server Error'')
                          | Inr dir' \<Rightarrow>
                              ((dir', g'),
                               LinkCreated apiLink (publicUrl baseUrl new)))))))"

text \<open>\<open>DELETE /api/apilinks/:linkId\<close>.\<close>

definition delete_link :: "user_id \<Rightarrow> string \<Rightarrow> directory \<Rightarrow> directory \<times> response" where
  "delete_link uid lid dir =
     (case findOne (\<lambda>l. linkId l = lid \<and> userId l = uid) dir of
        None \<Rightarrow> (dir, Failure 404 ''API link not found'')
      | Some i \<Rightarrow> (findByIdAndDelete i dir, LinkDeleted ''API link deleted successfully''))"

text \<open>\<open>PATCH /api/apilinks/:linkId/update\<close>.\<close>

definition update_link ::
  "string \<Rightarrow> user_id \<Rightarrow> string \<Rightarrow> document \<Rightarrow> directory \<Rightarrow> directory \<times> response" where
  "update_link baseUrl uid lid body dir =
     (let mid = get_prop body ''matchId''; ty = get_prop body ''type'' in
      if \<not> truthy mid \<or> \<not> truthy ty then
        (dir, Failure 400 ''Match ID and type are required'')
      else if \<not> js_includes [''full'', ''alive_status'', ''points_table''] ty then
        (dir, Failure 400 ''Invalid type. Use: full, alive_status, or points_table'')
      else
        (case findOne (\<lambda>l. linkId l = lid \<and> userId l = uid) dir of
           None \<Rightarrow> (dir, Failure 404 ''API link not found'')
         | Some i \<Rightarrow>
             (case js_trim mid of
                Inl e \<Rightarrow> (dir, Failure 500 ''Server Error'')
              | Inr trimmed \<Rightarrow>
                  let apiLink = (dir ! i)\<lparr>matchId := trimmed, type := string_value ty\<rparr> in
                  (case save i apiLink dir of
                     Inl e \<Rightarrow> (dir, Failure 500 ''Server Error'')
                   | Inr dir' \<Rightarrow>
                       (dir', LinkUpdated apiLink (publicUrl baseUrl lid)
                                ''API link updated successfully'')))))"

text \<open>\<open>PATCH /api/apilinks/:linkId/toggle\<close>.\<close>

definition status_message :: "bool \<Rightarrow> string" where
  "status_message b = ''API link '' @ (if b then ''enabled'' else ''disabled'') @ '' successfully''"

definition toggle_link :: "user_id \<Rightarrow> string \<Rightarrow> directory \<Rightarrow> directory \<times> response" where
  "toggle_link uid lid dir =
     (case findOne (\<lambda>l. linkId l = lid \<and> userId l = uid) dir of
        None \<Rightarrow> (dir, Failure 404 ''API link not found'')
      | Some i \<Rightarrow>
          let apiLink = (dir ! i)\<lparr>isActive := \<not> isActive (dir ! i)\<rparr> in
          (case save i apiLink dir of
             Inl e \<Rightarrow> (dir, Failure 500 ''Server Error'')
           | Inr dir' \<Rightarrow> (dir', LinkStatus apiLink (status_message (isActive apiLink)))))"

text \<open>\<open>PATCH /api/apilinks/:linkId/status\<close>: \<open>typeof isActive\<close> must be \<open>boolean\<close>.\<close>

definition set_status :: "user_id \<Rightarrow> string \<Rightarrow> document \<Rightarrow> directory \<Rightarrow> directory \<times> response" where
  "set_status uid lid body dir =
     (case get_prop body ''isActive'' of
        JBool b \<Rightarrow>
          (case findOne (\<lambda>l. linkId l = lid \<and> userId l = uid) dir of
             None \<Rightarrow> (dir, Failure 404 ''API link not found'')
           | Some i \<Rightarrow>
               let apiLink = (dir ! i)\<lparr>isActive := b\<rparr> in
               (case save i apiLink dir of
                  Inl e \<Rightarrow> (dir, Failure 500 ''Server Error'')
                | Inr dir' \<Rightarrow> (dir', LinkStatus apiLink (status_message b))))
      | _ \<Rightarrow> (dir, Failure 400 ''isActive must be a boolean value''))"

section \<open>The server\<close>

text \<open>
  One request to the link routes. A step of the server takes the time, the base URL, the
  snapshot store, the request, and the directory with the random source; it returns the
  latter two after the request, and the response.
\<close>

datatype request =
    CreateLink user_id document
  | DeleteLink user_id string
  | UpdateLink user_id string document
  | ToggleLink user_id string
  | SetStatus user_id string document
  | PublicGet string

fun handle ::
  "int \<Rightarrow> string \<Rightarrow> database \<Rightarrow> request \<Rightarrow> directory \<times> rnd \<Rightarrow> (directory \<times> rnd) \<times> response" where
  "handle now baseUrl db (CreateLink uid body) (dir, g) = create_link now baseUrl uid body dir g"
| "handle now baseUrl db (DeleteLink uid lid) (dir, g) =
     (case delete_link uid lid dir of (dir', r) \<Rightarrow> ((dir', g), r))"
| "handle now baseUrl db (UpdateLink uid lid body) (dir, g) =
     (case update_link baseUrl uid lid body dir of (dir', r) \<Rightarrow> ((dir', g), r))"
| "handle now baseUrl db (ToggleLink uid lid) (dir, g) =
     (case toggle_link uid lid dir of (dir', r) \<Rightarrow> ((dir', g), r))"
| "handle now baseUrl db (SetStatus uid lid body) (dir, g) =
     (case set_status uid lid body dir of (dir', r) \<Rightarrow> ((dir', g), r))"
| "handle now baseUrl db (PublicGet lid) (dir, g) =
     (case public_get now db dir lid of (dir', r) \<Rightarrow> ((dir', g), r))"

section \<open>Properties of a request\<close>

text \<open>
  What a request may do to the telemetry of the links it leaves in the directory: a link
  of the new directory either comes from a link of the old one, with the same token and
  owner and a count that is not smaller, or it is new, with a fresh token, count 0 and
  no access stamp.
\<close>

definition telemetry_kept :: "directory \<Rightarrow> directory \<Rightarrow> bool" where
  "telemetry_kept dir dir' =
     (\<forall>l'\<in>set dir'.
        (\<exists>l\<in>set dir. linkId l = linkId l' \<and> userId l = userId l'
                    \<and> accessCount l \<le> accessCount l')
      \<or> (linkId l' \<notin> linkId ` set dir \<and> accessCount l' = 0 \<and> lastAccessed l' = None))"

text \<open>
  The directories that the server can reach: tokens are unique and every link passes the
  validators of the schema.
\<close>

definition directory_ok :: "directory \<Rightarrow> bool" where
  "directory_ok dir = (distinct (map linkId dir) \<and> (\<forall>l\<in>set dir. validate l))"

section \<open>Sample data\<close>

text \<open>A link of user \<open>u1\<close>, and a store with one snapshot of the match \<open>m-1\<close>.\<close>

definition sample_link :: link where
  "sample_link = \<lparr>userId = ''u1'', linkId = ''AAAAAAAAAAAAAAAA'', matchId = ''m-1'',
     type = ''points_table'', isActive = True, createdAt = 0, lastAccessed = None,
     accessCount = 0\<rparr>"

definition sample_db :: database where
  "sample_db = [(''match_m_1'',
     [\<lparr>timestamp = 1, rest = [(''matchId'', JStr ''m-1''),
         (''pointsTable'', JArr [JObj [(''team'', JStr ''A''), (''pts'', JNum 10)]])]\<rparr>])]"

section \<open>Lookups in the directory\<close>

lemma findOne_None_iff: "findOne P dir = None \<longleftrightarrow> (\<forall>l\<in>set dir. \<not> P l)"
  by (induction dir) auto

lemma findOne_Some:
  "findOne P dir = Some i \<Longrightarrow> i < length dir \<and> P (dir ! i) \<and> (\<forall>j<i. \<not> P (dir ! j))"
proof (induction dir arbitrary: i)
  case Nil
  then show ?case by simp
next
  case (Cons l ls)
  show ?case
  proof (cases "P l")
    case True
    with Cons.prems show ?thesis by simp
  next
    case False
    with Cons.prems obtain k where k: "findOne P ls = Some k" "i = Suc k"
      by auto
    from Cons.IH [OF k(1)] False k(2) show ?thesis
      by (auto simp: nth_Cons split: nat.splits)
  qed
qed

lemma findOne_distinct:
  assumes "distinct (map linkId dir)" "l \<in> set dir" "P l" "\<And>x. P x \<Longrightarrow> linkId x = linkId l"
  shows "\<exists>i. findOne P dir = Some i \<and> i < length dir \<and> dir ! i = l"
proof -
  from assms(2,3) have "findOne P dir \<noteq> None"
    by (auto simp: findOne_None_iff)
  then obtain i where i: "findOne P dir = Some i"
    by auto
  from findOne_Some [OF i] have b: "i < length dir" and p: "P (dir ! i)"
    by auto
  from assms(2) obtain j where j: "j < length dir" "dir ! j = l"
    by (auto simp: in_set_conv_nth)
  from assms(4) [OF p] j have "map linkId dir ! i = map linkId dir ! j"
    using b by simp
  with nth_eq_iff_index_eq [OF assms(1), of i j] b j(1) have "i = j"
    by simp
  with i b j show ?thesis by simp
qed

section \<open>White space\<close>

lemma rev_dropWhile_takeWhile:
  "rev (dropWhile P (rev xs)) @ rev (takeWhile P (rev xs)) = xs"
proof -
  have "rev (dropWhile P (rev xs)) @ rev (takeWhile P (rev xs)) =
        rev (takeWhile P (rev xs) @ dropWhile P (rev xs))"
    by (simp only: rev_append)
  also have "\<dots> = xs"
    by simp
  finally show ?thesis .
qed

lemma dropWhile_trim: "trim s @ rev (takeWhile is_ws (rev (dropWhile is_ws s))) = dropWhile is_ws s"
  unfolding trim_def by (rule rev_dropWhile_takeWhile)

lemma trim_decomp:
  "\<exists>pre post. s = pre @ trim s @ post \<and> (\<forall>c\<in>set pre. is_ws c) \<and> (\<forall>c\<in>set post. is_ws c)"
proof -
  let ?post = "rev (takeWhile is_ws (rev (dropWhile is_ws s)))"
  have "s = takeWhile is_ws s @ dropWhile is_ws s"
    by simp
  then have "s = takeWhile is_ws s @ trim s @ ?post"
    by (simp only: dropWhile_trim)
  moreover have "\<forall>c\<in>set (takeWhile is_ws s). is_ws c"
    by (auto dest: set_takeWhileD)
  moreover have "\<forall>c\<in>set ?post. is_ws c"
    by (auto dest: set_takeWhileD)
  ultimately show ?thesis
    by blast
qed

lemma trim_last: "trim s \<noteq> [] \<Longrightarrow> \<not> is_ws (last (trim s))"
  by (simp add: trim_def last_rev hd_dropWhile)

lemma trim_hd:
  assumes "trim s \<noteq> []"
  shows "\<not> is_ws (hd (trim s))"
proof -
  from assms dropWhile_trim [of s] have "hd (dropWhile is_ws s) = hd (trim s)"
    by (metis hd_append2)
  moreover from assms dropWhile_trim [of s] have "dropWhile is_ws s \<noteq> []"
    by (metis append_is_Nil_conv)
  ultimately show ?thesis
    using hd_dropWhile [of is_ws s] by simp
qed

lemma trim_idem: "trim (trim s) = trim s"
proof (cases "trim s = []")
  case True
  have "trim [] = []"
    by (simp add: trim_def)
  with True show ?thesis
    by simp
next
  case False
  from trim_hd [OF False] False have a: "dropWhile is_ws (trim s) = trim s"
    by (cases "trim s") auto
  from trim_last [OF False] False have "dropWhile is_ws (rev (trim s)) = rev (trim s)"
    by (cases "rev (trim s)") (auto simp: last_rev [symmetric] simp del: last_rev)
  with a show ?thesis
    by (simp add: trim_def [of "trim s"])
qed

section \<open>Resolving a token\<close>

lemma validate_touch [simp]:
  "validate (l\<lparr>lastAccessed := a, accessCount := n\<rparr>) = validate l"
  "validate (l\<lparr>isActive := b\<rparr>) = validate l"
  by (simp_all add: validate_def)

lemma public_get_found:
  assumes "findOne (\<lambda>x. linkId x = t \<and> isActive x) dir = Some i" "validate (dir ! i)"
  shows "public_get now db dir t =
    (dir[i := (dir ! i)\<lparr>lastAccessed := Some now, accessCount := accessCount (dir ! i) + 1\<rparr>],
     if public_collection_name (matchId (dir ! i)) \<notin> set (collection_names db)
     then Failure 404 ''Match data not found''
     else case find_latest (collection db (public_collection_name (matchId (dir ! i)))) of
            None \<Rightarrow> Failure 404 ''No match data found''
          | Some s \<Rightarrow> MatchData (get_prop (as_document s) ''matchId'')
                                (get_prop (as_document s) ''timestamp'')
                                (public_response_data (type (dir ! i)) (as_document s)))"
  using assms by (simp add: public_get_def save_def Let_def split: option.splits)

text \<open>
  C1. A token that no link carries and the token of a disabled link get the same answer
  from the public resolver: 404 with \<open>{success: false, error: 'Not found'}\<close>, and the
  directory is left as it was. Tokens are unique in the directory.
\<close>

theorem public_not_found_indistinguishable:
  assumes "\<forall>l\<in>set dir1. linkId l \<noteq> t"
    and "l \<in> set dir2" "linkId l = t" "\<not> isActive l" "distinct (map linkId dir2)"
  shows "public_get now1 db1 dir1 t = (dir1, Failure 404 ''Not found'')
       \<and> public_get now2 db2 dir2 t = (dir2, Failure 404 ''Not found'')
       \<and> snd (public_get now1 db1 dir1 t) = snd (public_get now2 db2 dir2 t)"
proof -
  from assms(1) have a: "findOne (\<lambda>l. linkId l = t \<and> isActive l) dir1 = None"
    by (simp add: findOne_None_iff)
  have "\<forall>x\<in>set dir2. \<not> (linkId x = t \<and> isActive x)"
  proof
    fix x assume x: "x \<in> set dir2"
    show "\<not> (linkId x = t \<and> isActive x)"
    proof
      assume h: "linkId x = t \<and> isActive x"
      with assms(2,3,5) x have "x = l"
        by (metis distinct_map inj_onD)
      with h assms(4) show False by simp
    qed
  qed
  then have b: "findOne (\<lambda>l. linkId l = t \<and> isActive l) dir2 = None"
    by (simp add: findOne_None_iff)
  from a b show ?thesis
    by (simp add: public_get_def)
qed

theorem public_not_found_indistinguishable_witness:
  "public_get 1000 sample_db [] ''AAAAAAAAAAAAAAAA'' = ([], Failure 404 ''Not found'')
   \<and> public_get 1000 sample_db [sample_link\<lparr>isActive := False\<rparr>] ''AAAAAAAAAAAAAAAA''
       = ([sample_link\<lparr>isActive := False\<rparr>], Failure 404 ''Not found'')"
proof -
  have a: "\<forall>l\<in>set []. linkId l \<noteq> ''AAAAAAAAAAAAAAAA''"
    by simp
  have b: "sample_link\<lparr>isActive := False\<rparr> \<in> set [sample_link\<lparr>isActive := False\<rparr>]"
    by simp
  have c: "linkId (sample_link\<lparr>isActive := False\<rparr>) = ''AAAAAAAAAAAAAAAA''"
    by (simp add: sample_link_def)
  have d: "\<not> isActive (sample_link\<lparr>isActive := False\<rparr>)"
    by simp
  have e: "distinct (map linkId [sample_link\<lparr>isActive := False\<rparr>])"
    by simp
  from public_not_found_indistinguishable [OF a b c d e, of 1000 sample_db 1000 sample_db]
  show ?thesis by simp
qed

text \<open>
  C2. Resolving the token of an enabled link adds one to that link's \<open>accessCount\<close> and
  sets its \<open>lastAccessed\<close> to the time of the request. The directory after the request
  is the same whatever the snapshot store holds, since the link is saved before the
  store is read; when the store has no container for the match, the answer is 404
  \<open>Match data not found\<close> and the count and the stamp stay. The link is one that the
  schema accepts, as every stored link is.
\<close>

theorem public_counts_access:
  assumes "l \<in> set dir" "linkId l = t" "isActive l" "distinct (map linkId dir)" "validate l"
  shows "\<exists>i<length dir. dir ! i = l \<and>
           (\<forall>db. fst (public_get now db dir t) =
                   dir[i := l\<lparr>lastAccessed := Some now, accessCount := accessCount l + 1\<rparr>]) \<and>
           (\<forall>db. public_collection_name (matchId l) \<notin> set (collection_names db) \<longrightarrow>
                   snd (public_get now db dir t) = Failure 404 ''Match data not found'')"
proof -
  from findOne_distinct [OF assms(4) assms(1), of "\<lambda>x. linkId x = t \<and> isActive x"] assms(2,3)
  obtain i where i: "findOne (\<lambda>x. linkId x = t \<and> isActive x) dir = Some i"
      "i < length dir" "dir ! i = l"
    by auto
  from i(3) assms(5) have v: "validate (dir ! i)" by simp
  show ?thesis
    using i(2,3) by (intro exI [of _ i]) (simp add: public_get_found [OF i(1) v])
qed

theorem public_counts_access_witness:
  "public_get 1000 [] [sample_link] ''AAAAAAAAAAAAAAAA'' =
     ([sample_link\<lparr>lastAccessed := Some 1000, accessCount := 1\<rparr>],
      Failure 404 ''Match data not found'')"
proof -
  have a: "sample_link \<in> set [sample_link]"
    by simp
  have b: "linkId sample_link = ''AAAAAAAAAAAAAAAA''" and c: "isActive sample_link"
    by (simp_all add: sample_link_def)
  have d: "distinct (map linkId [sample_link])"
    by simp
  have e: "validate sample_link"
    by (simp add: validate_def sample_link_def link_types_def)
  from public_counts_access [OF a b c d e, of 1000]
  obtain i where i: "i < length [sample_link]"
    and f: "\<forall>db. fst (public_get 1000 db [sample_link] ''AAAAAAAAAAAAAAAA'') =
       [sample_link][i := sample_link\<lparr>lastAccessed := Some 1000,
                                      accessCount := accessCount sample_link + 1\<rparr>]"
    and s: "\<forall>db. public_collection_name (matchId sample_link) \<notin> set (collection_names db) \<longrightarrow>
       snd (public_get 1000 db [sample_link] ''AAAAAAAAAAAAAAAA'') =
       Failure 404 ''Match data not found''"
    by blast
  from i have "i = 0" by simp
  with f have "fst (public_get 1000 [] [sample_link] ''AAAAAAAAAAAAAAAA'') =
     [sample_link\<lparr>lastAccessed := Some 1000, accessCount := 1\<rparr>]"
    by (simp add: sample_link_def)
  moreover from s have "snd (public_get 1000 [] [sample_link] ''AAAAAAAAAAAAAAAA'') =
       Failure 404 ''Match data not found''"
    by (simp add: collection_names_def)
  ultimately show ?thesis
    by (simp add: prod_eq_iff)
qed

text \<open>
  C3. The container that the public resolver looks up is a function of the link's match
  id alone: the match id without the white space at its two ends, each hyphen replaced
  by an underscore, after the marker \<open>match_\<close>. The resolver answers
  \<open>Match data not found\<close> exactly when the store has no container of that name.
\<close>

theorem public_container_name:
  assumes "l \<in> set dir" "linkId l = t" "isActive l" "distinct (map linkId dir)" "validate l"
  shows "(\<exists>pre post. matchId l = pre @ trim (matchId l) @ post
            \<and> (\<forall>c\<in>set pre. is_ws c) \<and> (\<forall>c\<in>set post. is_ws c))
       \<and> (trim (matchId l) \<noteq> [] \<longrightarrow>
            \<not> is_ws (hd (trim (matchId l))) \<and> \<not> is_ws (last (trim (matchId l))))
       \<and> public_collection_name (matchId l) =
            ''match_'' @ map (\<lambda>c. if c = CHR ''-'' then CHR ''_'' else c) (trim (matchId l))
       \<and> (snd (public_get now db dir t) = Failure 404 ''Match data not found''
            \<longleftrightarrow> public_collection_name (matchId l) \<notin> set (map fst db))"
proof -
  from findOne_distinct [OF assms(4) assms(1), of "\<lambda>x. linkId x = t \<and> isActive x"] assms(2,3)
  obtain i where i: "findOne (\<lambda>x. linkId x = t \<and> isActive x) dir = Some i"
      "i < length dir" "dir ! i = l"
    by auto
  from i(3) assms(5) have v: "validate (dir ! i)" by simp
  have "snd (public_get now db dir t) = Failure 404 ''Match data not found''
            \<longleftrightarrow> public_collection_name (matchId l) \<notin> set (map fst db)"
    using i(3) by (simp add: public_get_found [OF i(1) v] collection_names_def split: option.splits)
  moreover have "public_collection_name (matchId l) =
            ''match_'' @ map (\<lambda>c. if c = CHR ''-'' then CHR ''_'' else c) (trim (matchId l))"
    by (simp add: public_collection_name_def replace_hyphens_def)
  ultimately show ?thesis
    using trim_decomp [of "matchId l"] trim_hd [of "matchId l"] trim_last [of "matchId l"]
    by blast
qed

theorem public_container_name_witness:
  "public_collection_name (matchId sample_link) = ''match_m_1''
   \<and> snd (public_get 1000 [] [sample_link] ''AAAAAAAAAAAAAAAA'') =
       Failure 404 ''Match data not found''
   \<and> snd (public_get 1000 sample_db [sample_link] ''AAAAAAAAAAAAAAAA'') \<noteq>
       Failure 404 ''Match data not found''"
proof -
  have a: "sample_link \<in> set [sample_link]"
    by simp
  have b: "linkId sample_link = ''AAAAAAAAAAAAAAAA''" and c: "isActive sample_link"
    by (simp_all add: sample_link_def)
  have d: "distinct (map linkId [sample_link])"
    by simp
  have e: "validate sample_link"
    by (simp add: validate_def sample_link_def link_types_def)
  have t: "trim (matchId sample_link) = ''m-1''"
    by (simp add: sample_link_def trim_def is_ws_def)
  note w = public_container_name [OF a b c d e]
  from w [of 1000 "[]"] t have "public_collection_name (matchId sample_link) = ''match_m_1''"
    by simp
  moreover from this w [of 1000 "[]"]
  have "snd (public_get 1000 [] [sample_link] ''AAAAAAAAAAAAAAAA'') =
       Failure 404 ''Match data not found''"
    by simp
  moreover from \<open>public_collection_name (matchId sample_link) = ''match_m_1''\<close> w [of 1000 sample_db]
  have "snd (public_get 1000 sample_db [sample_link] ''AAAAAAAAAAAAAAAA'') \<noteq>
       Failure 404 ''Match data not found''"
    by (simp add: sample_db_def)
  ultimately show ?thesis
    by blast
qed

section \<open>Generated tokens and the retry loop\<close>

lemma chars_length: "length chars = 62"
  by (simp add: chars_def)

lemma chars_distinct: "distinct chars"
  by (simp add: chars_def)

lemma charAt_random:
  assumes "0 \<le> r" "r < 1"
  shows "\<exists>c. charAt chars \<lfloor>r * rat_of_nat (length chars)\<rfloor> = [c] \<and> c \<in> set chars"
proof -
  let ?k = "\<lfloor>r * rat_of_nat (length chars)\<rfloor>"
  from assms(1) have "0 \<le> r * 62" by simp
  then have lo: "0 \<le> ?k"
    by (simp add: chars_length)
  from assms(2) have "r * 62 < 62" by simp
  then have "\<lfloor>r * 62\<rfloor> < 62"
    by (simp add: floor_less_iff)
  then have hi: "?k < int (length chars)"
    by (simp add: chars_length)
  from nat_less_iff [OF lo, of "length chars"] hi have "nat ?k < length chars"
    by blast
  then have "chars ! nat ?k \<in> set chars"
    by (rule nth_mem)
  with lo hi show ?thesis
    by (simp add: charAt_def)
qed

lemma generateLinkId_loop_result:
  assumes "\<forall>n. 0 \<le> fst g n \<and> fst g n < 1"
  shows "length (fst (generateLinkId_loop i result g)) = length result + (16 - i)
       \<and> set (fst (generateLinkId_loop i result g)) \<subseteq> set result \<union> set chars
       \<and> snd (generateLinkId_loop i result g) = (fst g, snd g + (16 - i))"
  using assms
proof (induction i result g rule: generateLinkId_loop.induct)
  case (1 i result g)
  show ?case
  proof (cases "i < 16")
    case False
    then show ?thesis
      by (simp add: generateLinkId_loop.simps [of i])
  next
    case True
    let ?g' = "(fst g, Suc (snd g))"
    from "1.prems" have r: "0 \<le> fst g (snd g)" "fst g (snd g) < 1"
      by simp_all
    from charAt_random [OF r] obtain c
      where c: "charAt chars \<lfloor>fst g (snd g) * rat_of_nat (length chars)\<rfloor> = [c]"
        "c \<in> set chars"
      by blast
    have rg: "random g = (fst g (snd g), ?g')"
      by (simp add: random_def)
    from "1.prems" have ok: "\<forall>n. 0 \<le> fst ?g' n \<and> fst ?g' n < 1"
      by simp
    note ih = "1.IH" [OF True rg [symmetric] ok]
    have step: "generateLinkId_loop i result g = generateLinkId_loop (i + 1) (result @ [c]) ?g'"
      using True c(1) by (simp add: generateLinkId_loop.simps [of i] rg)
    from ih c True show ?thesis
      unfolding step by auto
  qed
qed

lemma generateLinkId_result:
  assumes "\<forall>n. 0 \<le> fst g n \<and> fst g n < 1"
  shows "length (fst (generateLinkId g)) = 16" "set (fst (generateLinkId g)) \<subseteq> set chars"
    "snd (generateLinkId g) = (fst g, snd g + 16)"
  using generateLinkId_loop_result [OF assms, of 0 "[]"]
  by (simp_all add: generateLinkId_def)

lemma findOne_linkId_None: "findOne (\<lambda>l. linkId l = t) dir = None \<longleftrightarrow> t \<notin> linkId ` set dir"
  by (auto simp: findOne_None_iff)

lemma unique_loop_result:
  assumes "\<forall>n. 0 \<le> fst g n \<and> fst g n < 1"
    and "unique_loop dir lid isUnique attempts g = (lid', isUnique', attempts', g')"
    and "attempts \<le> 10"
  shows "attempts \<le> attempts' \<and> attempts' \<le> 10
     \<and> g' = (fst g, snd g + 16 * (attempts' - attempts))
     \<and> (isUnique \<longrightarrow> isUnique' \<and> attempts' = attempts \<and> lid' = lid)
     \<and> (\<not> isUnique \<longrightarrow>
          (isUnique' \<longleftrightarrow>
             (\<exists>k<10 - attempts. fst (generateLinkId (fst g, snd g + 16 * k)) \<notin> linkId ` set dir))
        \<and> (isUnique' \<longrightarrow> attempts < attempts' \<and>
             (\<exists>new. lid' = Some new \<and> length new = 16 \<and> set new \<subseteq> set chars
                    \<and> new \<notin> linkId ` set dir))
        \<and> (\<not> isUnique' \<longrightarrow> attempts' = 10))"
  using assms
proof (induction dir lid isUnique attempts g rule: unique_loop.induct)
  case (1 dir lid isUnique attempts g)
  show ?case
  proof (cases "\<not> isUnique \<and> attempts < 10")
    case False
    with "1.prems"(2) have "lid' = lid" "isUnique' = isUnique" "attempts' = attempts" "g' = g"
      by (simp_all add: unique_loop.simps [of dir lid isUnique attempts g])
    with False "1.prems"(3) show ?thesis
      by auto
  next
    case True
    obtain new g1 where gen: "generateLinkId g = (new, g1)"
      by (cases "generateLinkId g")
    from generateLinkId_result [OF "1.prems"(1)] gen
    have new: "length new = 16" "set new \<subseteq> set chars" and g1: "g1 = (fst g, snd g + 16)"
      by simp_all
    let ?u = "if findOne (\<lambda>l. linkId l = new) dir = None then True else isUnique"
    have u: "?u \<longleftrightarrow> new \<notin> linkId ` set dir"
      using True by (simp add: findOne_linkId_None)
    have "unique_loop dir lid isUnique attempts g =
          unique_loop dir (Some new) ?u (attempts + 1) g1"
      using True gen by (subst unique_loop.simps) (simp add: Let_def)
    with "1.prems"(2)
    have run: "unique_loop dir (Some new) ?u (attempts + 1) g1 = (lid', isUnique', attempts', g')"
      by simp
    from "1.prems"(1) g1 have ok1: "\<forall>n. 0 \<le> fst g1 n \<and> fst g1 n < 1"
      by simp
    from True have le: "attempts + 1 \<le> 10"
      by simp
    note ih = "1.IH" [OF True gen [symmetric] refl ok1 run le]
    from gen have tok0: "fst (generateLinkId (fst g, snd g + 16 * 0)) = new"
      by simp
    have tok: "fst (generateLinkId (fst g1, snd g1 + 16 * k)) =
               fst (generateLinkId (fst g, snd g + 16 * Suc k))" for k
      by (simp add: g1 add.assoc)
    from ih have bounds: "attempts \<le> attempts'" "attempts' \<le> 10" "attempts < attempts'"
      by simp_all
    from ih g1 bounds have g': "g' = (fst g, snd g + 16 * (attempts' - attempts))"
      by (simp add: algebra_simps) 
    show ?thesis
    proof (cases "new \<in> linkId ` set dir")
      case False
      with u ih have r: "isUnique'" "attempts' = attempts + 1" "lid' = Some new"
        by simp_all
      from False tok0 True have "\<exists>k<10 - attempts. fst (generateLinkId (fst g, snd g + 16 * k)) \<notin> linkId ` set dir"
        by (intro exI [of _ 0]) simp
      with r new False bounds g' True show ?thesis
        by simp
    next
      case coll: True
      with u have nu: "\<not> ?u" by simp
      from ih nu have a: "isUnique' \<longleftrightarrow>
          (\<exists>k<10 - (attempts + 1). fst (generateLinkId (fst g1, snd g1 + 16 * k)) \<notin> linkId ` set dir)"
        and b: "isUnique' \<longrightarrow> (\<exists>new. lid' = Some new \<and> length new = 16 \<and> set new \<subseteq> set chars
                    \<and> new \<notin> linkId ` set dir)"
        and c: "\<not> isUnique' \<longrightarrow> attempts' = 10"
        by blast+
      have "(\<exists>k<10 - (attempts + 1). fst (generateLinkId (fst g1, snd g1 + 16 * k)) \<notin> linkId ` set dir)
         \<longleftrightarrow> (\<exists>k<10 - attempts. fst (generateLinkId (fst g, snd g + 16 * k)) \<notin> linkId ` set dir)"
        (is "?L \<longleftrightarrow> ?R")
      proof
        assume ?L
        then obtain k where k: "k < 10 - (attempts + 1)"
          "fst (generateLinkId (fst g1, snd g1 + 16 * k)) \<notin> linkId ` set dir"
          by blast
        from k(1) have "Suc k < 10 - attempts" by simp
        with k(2) show ?R
          unfolding tok by blast
      next
        assume ?R
        then obtain k where k: "k < 10 - attempts"
          "fst (generateLinkId (fst g, snd g + 16 * k)) \<notin> linkId ` set dir"
          by blast
        from k(2) tok0 coll have "k \<noteq> 0"
          by (intro notI) simp
        then obtain j where j: "k = Suc j"
          by (cases k) simp_all
        with k(1) have "j < 10 - (attempts + 1)" by simp
        with k(2) j show ?L
          unfolding tok by blast
      qed
      with a have "isUnique' \<longleftrightarrow> ?R"
        by blast
      with b c bounds g' True show ?thesis
        by blast
    qed
  qed
qed

text \<open>
  C5. A generated token has exactly 16 characters, each from the 62 distinct characters
  of \<open>chars\<close>. The loop of the create handler generates at least one and at most ten
  tokens and stops; each is looked up in the directory. It ends with \<open>isUnique\<close>
  exactly when one of the ten tokens it could draw is not in the directory, and then the
  token it keeps is unused. When all ten are taken, the handler answers 500
  \<open>Failed to generate unique link ID\<close> and the directory is unchanged. The random
  numbers are in \<open>[0, 1)\<close>, as \<open>Math.random\<close> promises, and the body has passed the
  two checks before the loop.
\<close>

theorem token_generation_bounded:
  assumes "\<forall>n. 0 \<le> fst g n \<and> fst g n < 1"
    and "unique_loop dir None False 0 g = (lid, isUnique, attempts, g')"
    and "truthy (get_prop body ''matchId'')"
    and "js_includes [''full'', ''alive_status'', ''points_table''] (get_prop body ''type'')"
  shows "length (fst (generateLinkId g)) = 16 \<and> set (fst (generateLinkId g)) \<subseteq> set chars
     \<and> length chars = 62 \<and> distinct chars
     \<and> 1 \<le> attempts \<and> attempts \<le> 10 \<and> g' = (fst g, snd g + 16 * attempts)
     \<and> (isUnique \<longleftrightarrow>
          (\<exists>k<10. fst (generateLinkId (fst g, snd g + 16 * k)) \<notin> linkId ` set dir))
     \<and> (isUnique \<longrightarrow>
          (\<exists>new. lid = Some new \<and> length new = 16 \<and> set new \<subseteq> set chars
                 \<and> new \<notin> linkId ` set dir))
     \<and> (\<not> isUnique \<longrightarrow> attempts = 10 \<and>
          create_link now baseUrl uid body dir g =
            ((dir, g'), Failure 500 ''Failed to generate unique link ID''))"
proof -
  note r = unique_loop_result [OF assms(1) assms(2)]
  from r have a: "attempts \<le> 10" "g' = (fst g, snd g + 16 * attempts)"
    and b: "isUnique \<longleftrightarrow>
          (\<exists>k<10. fst (generateLinkId (fst g, snd g + 16 * k)) \<notin> linkId ` set dir)"
    and c: "isUnique \<longrightarrow> 0 < attempts \<and>
          (\<exists>new. lid = Some new \<and> length new = 16 \<and> set new \<subseteq> set chars
                 \<and> new \<notin> linkId ` set dir)"
    and d: "\<not> isUnique \<longrightarrow> attempts = 10"
    by simp_all
  from c d have e: "1 \<le> attempts"
    by (cases isUnique) simp_all
  from assms(4) have "truthy (get_prop body ''type'')"
    by (cases "get_prop body ''type''") auto
  with assms(2,3,4) have f: "\<not> isUnique \<longrightarrow> create_link now baseUrl uid body dir g =
            ((dir, g'), Failure 500 ''Failed to generate unique link ID'')"
    by (simp add: create_link_def)
  from generateLinkId_result(1,2) [OF assms(1)] chars_length chars_distinct a b c d e f
  show ?thesis
    by blast
qed

lemma generateLinkId_zero: "fst (generateLinkId (\<lambda>n. 0, p)) = ''AAAAAAAAAAAAAAAA''"
  by (simp add: generateLinkId_def generateLinkId_loop.simps random_def charAt_def chars_def)

theorem token_generation_bounded_witness:
  "create_link 0 ''http://host'' ''u2'' [(''matchId'', JStr ''m-1''), (''type'', JStr ''full'')]
      [sample_link] (\<lambda>n. 0, 0) =
    (([sample_link], (\<lambda>n. 0, 160)), Failure 500 ''Failed to generate unique link ID'')"
proof -
  let ?g = "(\<lambda>n. 0, 0) :: rnd"
  let ?body = "[(''matchId'', JStr ''m-1''), (''type'', JStr ''full'')]"
  let ?u = "unique_loop [sample_link] None False 0 ?g"
  have a: "\<forall>n. 0 \<le> fst ?g n \<and> fst ?g n < 1"
    by simp
  have b: "?u = (fst ?u, fst (snd ?u), fst (snd (snd ?u)), snd (snd (snd ?u)))"
    by simp
  have c: "truthy (get_prop ?body ''matchId'')"
    by (simp add: get_prop_def)
  have d: "js_includes [''full'', ''alive_status'', ''points_table''] (get_prop ?body ''type'')"
    by (simp add: get_prop_def)
  note t = token_generation_bounded [OF a b c d, of 0 "''http://host''" "''u2''"]
  have "\<not> (\<exists>k<10. fst (generateLinkId (fst ?g, snd ?g + 16 * k)) \<notin> linkId ` set [sample_link])"
    by (simp add: generateLinkId_zero sample_link_def)
  with t have "\<not> fst (snd ?u)"
    by blast
  with t have "fst (snd (snd ?u)) = 10" and
    "create_link 0 ''http://host'' ''u2'' ?body [sample_link] ?g =
       (([sample_link], snd (snd (snd ?u))), Failure 500 ''Failed to generate unique link ID'')"
    and "snd (snd (snd ?u)) = (fst ?g, snd ?g + 16 * fst (snd (snd ?u)))"
    by blast+
  then show ?thesis
    by simp
qed


section \<open>Updating a link\<close>

lemma js_includes_iff: "js_includes xs v \<longleftrightarrow> (\<exists>s. v = JStr s \<and> s \<in> set xs)"
  by (cases v) auto

lemma truthy_JStr_trim: "trim m \<noteq> [] \<Longrightarrow> m \<noteq> []"
  by (auto simp: trim_def)

text \<open>
  C6. The update handler checks in this order. A body whose \<open>matchId\<close> or \<open>type\<close> is
  missing (or otherwise falsy) is answered 400. A \<open>type\<close> that is not one of the three
  names is answered 400. When the caller owns no link with the token, the answer is 404.
  In each case the directory is unchanged. Whenever the directory changes or the answer
  is 200, all three checks have passed, and the caller's link has the trimmed
  \<open>matchId\<close> and the new \<open>type\<close>, nothing else changed.
\<close>

theorem update_checks:
  "(\<not> truthy (get_prop body ''matchId'') \<or> \<not> truthy (get_prop body ''type'') \<longrightarrow>
      update_link baseUrl uid t body dir =
        (dir, Failure 400 ''Match ID and type are required''))
 \<and> (truthy (get_prop body ''matchId'') \<and> truthy (get_prop body ''type'')
      \<and> get_prop body ''type'' \<notin> {JStr ''full'', JStr ''alive_status'', JStr ''points_table''} \<longrightarrow>
      update_link baseUrl uid t body dir =
        (dir, Failure 400 ''Invalid type. Use: full, alive_status, or points_table''))
 \<and> (truthy (get_prop body ''matchId'')
      \<and> get_prop body ''type'' \<in> {JStr ''full'', JStr ''alive_status'', JStr ''points_table''}
      \<and> (\<forall>l\<in>set dir. linkId l = t \<longrightarrow> userId l \<noteq> uid) \<longrightarrow>
      update_link baseUrl uid t body dir = (dir, Failure 404 ''API link not found''))
 \<and> (fst (update_link baseUrl uid t body dir) \<noteq> dir
      \<or> status (snd (update_link baseUrl uid t body dir)) = 200 \<longrightarrow>
      (\<exists>m ty i. get_prop body ''matchId'' = JStr m \<and> m \<noteq> [] \<and> get_prop body ''type'' = JStr ty
         \<and> ty \<in> {''full'', ''alive_status'', ''points_table''}
         \<and> i < length dir \<and> linkId (dir ! i) = t \<and> userId (dir ! i) = uid
         \<and> update_link baseUrl uid t body dir =
             (dir[i := (dir ! i)\<lparr>matchId := trim m, type := ty\<rparr>],
              LinkUpdated ((dir ! i)\<lparr>matchId := trim m, type := ty\<rparr>) (publicUrl baseUrl t)
                ''API link updated successfully'')))"
  (is "?A \<and> ?B \<and> ?C \<and> ?D")
proof -
  let ?mid = "get_prop body ''matchId''" and ?ty = "get_prop body ''type''"
  let ?P = "\<lambda>l. linkId l = t \<and> userId l = uid"
  have inc: "js_includes [''full'', ''alive_status'', ''points_table''] ?ty \<longleftrightarrow>
        ?ty \<in> {JStr ''full'', JStr ''alive_status'', JStr ''points_table''}"
    by (auto simp: js_includes_iff)
  have A: ?A
    by (auto simp: update_link_def)
  have B: ?B
    using inc by (simp add: update_link_def)
  have C: ?C
  proof
    assume h: "truthy ?mid
      \<and> ?ty \<in> {JStr ''full'', JStr ''alive_status'', JStr ''points_table''}
      \<and> (\<forall>l\<in>set dir. linkId l = t \<longrightarrow> userId l \<noteq> uid)"
    then have "findOne ?P dir = None"
      by (auto simp: findOne_None_iff)
    moreover from h have "truthy ?ty"
      by auto
    ultimately show "update_link baseUrl uid t body dir = (dir, Failure 404 ''API link not found'')"
      using h inc by (simp add: update_link_def)
  qed
  have D: ?D
  proof
    assume h: "fst (update_link baseUrl uid t body dir) \<noteq> dir
      \<or> status (snd (update_link baseUrl uid t body dir)) = 200"
    have t1: "truthy ?mid \<and> truthy ?ty"
    proof (rule ccontr)
      assume "\<not> (truthy ?mid \<and> truthy ?ty)"
      with A have "update_link baseUrl uid t body dir =
          (dir, Failure 400 ''Match ID and type are required'')"
        by blast
      with h show False by simp
    qed
    have t2: "js_includes [''full'', ''alive_status'', ''points_table''] ?ty"
    proof (rule ccontr)
      assume "\<not> js_includes [''full'', ''alive_status'', ''points_table''] ?ty"
      with B t1 inc have "update_link baseUrl uid t body dir =
          (dir, Failure 400 ''Invalid type. Use: full, alive_status, or points_table'')"
        by blast
      with h show False by simp
    qed
    then obtain ty where ty: "?ty = JStr ty" "ty \<in> {''full'', ''alive_status'', ''points_table''}"
      by (auto simp: js_includes_iff)
    have "findOne ?P dir \<noteq> None"
    proof
      assume "findOne ?P dir = None"
      with t1 t2 have "update_link baseUrl uid t body dir = (dir, Failure 404 ''API link not found'')"
        by (simp add: update_link_def)
      with h show False by simp
    qed
    then obtain i where i: "findOne ?P dir = Some i"
      by auto
    have "js_trim ?mid \<noteq> Inl TypeError"
    proof
      assume "js_trim ?mid = Inl TypeError"
      with t1 t2 i have "update_link baseUrl uid t body dir = (dir, Failure 500 ''Server Error'')"
        by (simp add: update_link_def)
      with h show False by simp
    qed
    then obtain m where m: "?mid = JStr m"
      by (cases ?mid) simp_all
    from m t1 have m0: "m \<noteq> []"
      by simp
    let ?l = "(dir ! i)\<lparr>matchId := trim m, type := ty\<rparr>"
    have v: "validate ?l"
    proof (rule ccontr)
      assume "\<not> validate ?l"
      with t1 t2 i m ty(1)
      have "update_link baseUrl uid t body dir = (dir, Failure 500 ''Server Error'')"
        by (simp add: update_link_def save_def)
      with h show False by simp
    qed
    from findOne_Some [OF i] have "i < length dir" "linkId (dir ! i) = t" "userId (dir ! i) = uid"
      by simp_all
    moreover have "update_link baseUrl uid t body dir =
        (dir[i := ?l], LinkUpdated ?l (publicUrl baseUrl t) ''API link updated successfully'')"
      using t1 t2 i m ty(1) v by (simp add: update_link_def save_def Let_def)
    ultimately show "\<exists>m ty i. ?mid = JStr m \<and> m \<noteq> [] \<and> ?ty = JStr ty
         \<and> ty \<in> {''full'', ''alive_status'', ''points_table''}
         \<and> i < length dir \<and> linkId (dir ! i) = t \<and> userId (dir ! i) = uid
         \<and> update_link baseUrl uid t body dir =
             (dir[i := (dir ! i)\<lparr>matchId := trim m, type := ty\<rparr>],
              LinkUpdated ((dir ! i)\<lparr>matchId := trim m, type := ty\<rparr>) (publicUrl baseUrl t)
                ''API link updated successfully'')"
      using m m0 ty by blast
  qed
  from A B C D show ?thesis
    by blast
qed

theorem update_checks_witness:
  "update_link ''http://host'' ''u2'' ''AAAAAAAAAAAAAAAA''
      [(''matchId'', JStr ''m-2''), (''type'', JStr ''full'')] [sample_link] =
     ([sample_link], Failure 404 ''API link not found'')
 \<and> update_link ''http://host'' ''u1'' ''AAAAAAAAAAAAAAAA''
      [(''matchId'', JStr ''m-2'')] [sample_link] =
     ([sample_link], Failure 400 ''Match ID and type are required'')
 \<and> update_link ''http://host'' ''u1'' ''AAAAAAAAAAAAAAAA''
      [(''matchId'', JStr ''m-2''), (''type'', JStr ''scores'')] [sample_link] =
     ([sample_link], Failure 400 ''Invalid type. Use: full, alive_status, or points_table'')
 \<and> update_link ''http://host'' ''u1'' ''AAAAAAAAAAAAAAAA''
      [(''matchId'', JStr '' m-2 ''), (''type'', JStr ''full'')] [sample_link] =
     ([sample_link\<lparr>matchId := ''m-2'', type := ''full''\<rparr>],
      LinkUpdated (sample_link\<lparr>matchId := ''m-2'', type := ''full''\<rparr>)
        ''http://host/api/public/AAAAAAAAAAAAAAAA'' ''API link updated successfully'')"
proof -
  note a = update_checks [of "[(''matchId'', JStr ''m-2''), (''type'', JStr ''full'')]"
      "''http://host''" "''u2''" "''AAAAAAAAAAAAAAAA''" "[sample_link]"]
  note b = update_checks [of "[(''matchId'', JStr ''m-2'')]"
      "''http://host''" "''u1''" "''AAAAAAAAAAAAAAAA''" "[sample_link]"]
  note c = update_checks [of "[(''matchId'', JStr ''m-2''), (''type'', JStr ''scores'')]"
      "''http://host''" "''u1''" "''AAAAAAAAAAAAAAAA''" "[sample_link]"]
  from a have "update_link ''http://host'' ''u2'' ''AAAAAAAAAAAAAAAA''
      [(''matchId'', JStr ''m-2''), (''type'', JStr ''full'')] [sample_link] =
     ([sample_link], Failure 404 ''API link not found'')"
    by (simp add: get_prop_def sample_link_def)
  moreover from b have "update_link ''http://host'' ''u1'' ''AAAAAAAAAAAAAAAA''
      [(''matchId'', JStr ''m-2'')] [sample_link] =
     ([sample_link], Failure 400 ''Match ID and type are required'')"
    by (simp add: get_prop_def)
  moreover from c have "update_link ''http://host'' ''u1'' ''AAAAAAAAAAAAAAAA''
      [(''matchId'', JStr ''m-2''), (''type'', JStr ''scores'')] [sample_link] =
     ([sample_link], Failure 400 ''Invalid type. Use: full, alive_status, or points_table'')"
    by (simp add: get_prop_def)
  moreover have "update_link ''http://host'' ''u1'' ''AAAAAAAAAAAAAAAA''
      [(''matchId'', JStr '' m-2 ''), (''type'', JStr ''full'')] [sample_link] =
     ([sample_link\<lparr>matchId := ''m-2'', type := ''full''\<rparr>],
      LinkUpdated (sample_link\<lparr>matchId := ''m-2'', type := ''full''\<rparr>)
        ''http://host/api/public/AAAAAAAAAAAAAAAA'' ''API link updated successfully'')"
    by (simp add: update_link_def get_prop_def sample_link_def save_def validate_def
        link_types_def trim_def is_ws_def publicUrl_def Let_def)
  ultimately show ?thesis
    by blast
qed


section \<open>Deleting a link\<close>

text \<open>
  C7. Deleting with a token that no link of the caller carries, because no link has it or
  because its link belongs to someone else, is answered 404 \<open>API link not found\<close>, and
  the directory, with the other owner's link in it, is unchanged.
\<close>

theorem delete_not_owned_not_found:
  assumes "\<forall>l\<in>set dir. linkId l = t \<longrightarrow> userId l \<noteq> uid"
  shows "delete_link uid t dir = (dir, Failure 404 ''API link not found'')"
proof -
  from assms have "findOne (\<lambda>l. linkId l = t \<and> userId l = uid) dir = None"
    by (auto simp: findOne_None_iff)
  then show ?thesis
    by (simp add: delete_link_def)
qed

theorem delete_not_owned_not_found_witness:
  "delete_link ''u2'' ''AAAAAAAAAAAAAAAA'' [sample_link] =
     ([sample_link], Failure 404 ''API link not found'')"
proof -
  have "\<forall>l\<in>set [sample_link]. linkId l = ''AAAAAAAAAAAAAAAA'' \<longrightarrow> userId l \<noteq> ''u2''"
    by (simp add: sample_link_def)
  from delete_not_owned_not_found [OF this] show ?thesis .
qed

section \<open>Creating a link\<close>

lemma public_collection_name_trim: "public_collection_name (trim m) = public_collection_name m"
  by (simp add: public_collection_name_def trim_idem)

text \<open>
  C8. Creating a link with a match id and creating it with the same match id trimmed give
  the same directory, random source and response, as long as something is left after
  trimming: \<open>" m-1 "\<close> and \<open>"m-1"\<close> are such a pair. The stored match id is the
  trimmed one, the container derived from it is the same for both, and so the public
  resolver answers alike on the two directories.
\<close>

theorem create_trims_matchId:
  assumes "get_prop body ''matchId'' = JStr m"
    and "get_prop body' ''matchId'' = JStr (trim m)"
    and "get_prop body' ''type'' = get_prop body ''type''"
    and "trim m \<noteq> []"
  shows "create_link now baseUrl uid body dir g = create_link now baseUrl uid body' dir g
     \<and> (\<forall>l url. snd (create_link now baseUrl uid body dir g) = LinkCreated l url \<longrightarrow>
           matchId l = trim m
         \<and> fst (fst (create_link now baseUrl uid body dir g)) = dir @ [l]
         \<and> public_collection_name (matchId l) = public_collection_name m)
     \<and> public_collection_name (trim m) = public_collection_name m
     \<and> (\<forall>t now' db. public_get now' db (fst (fst (create_link now baseUrl uid body dir g))) t =
           public_get now' db (fst (fst (create_link now baseUrl uid body' dir g))) t)"
proof -
  from assms(4) have m: "m \<noteq> []"
    by (rule truthy_JStr_trim)
  obtain lid isUnique attempts g' where
    loop: "unique_loop dir None False 0 g = (lid, isUnique, attempts, g')"
    by (cases "unique_loop dir None False 0 g")
  have eq: "create_link now baseUrl uid body dir g = create_link now baseUrl uid body' dir g"
    using assms m loop by (simp add: create_link_def trim_idem Let_def)
  have stored: "matchId l = trim m \<and> fst (fst (create_link now baseUrl uid body dir g)) = dir @ [l]"
    if "snd (create_link now baseUrl uid body dir g) = LinkCreated l url" for l url
    using that assms(1) m loop
    by (auto simp: create_link_def create_def Let_def split: if_splits option.splits)
  from eq stored public_collection_name_trim show ?thesis
    by auto
qed

lemma generateLinkId_zero_pair:
  "generateLinkId (\<lambda>n. 0, p) = (''AAAAAAAAAAAAAAAA'', (\<lambda>n. 0, p + 16))"
  by (simp add: generateLinkId_def generateLinkId_loop.simps random_def charAt_def chars_def)

lemma unique_loop_zero_empty:
  "unique_loop [] None False 0 (\<lambda>n. 0, 0) = (Some ''AAAAAAAAAAAAAAAA'', True, 1, (\<lambda>n. 0, 16))"
  by (simp add: unique_loop.simps generateLinkId_zero_pair)

theorem create_trims_matchId_witness:
  "create_link 0 ''http://host'' ''u1''
      [(''matchId'', JStr '' m-1 ''), (''type'', JStr ''points_table'')] [] (\<lambda>n. 0, 0) =
   create_link 0 ''http://host'' ''u1''
      [(''matchId'', JStr ''m-1''), (''type'', JStr ''points_table'')] [] (\<lambda>n. 0, 0)
 \<and> create_link 0 ''http://host'' ''u1''
      [(''matchId'', JStr '' m-1 ''), (''type'', JStr ''points_table'')] [] (\<lambda>n. 0, 0) =
   (([sample_link], (\<lambda>n. 0, 16)),
    LinkCreated sample_link ''http://host/api/public/AAAAAAAAAAAAAAAA'')
 \<and> public_collection_name '' m-1 '' = ''match_m_1''"
proof -
  let ?ws = "[(''matchId'', JStr '' m-1 ''), (''type'', JStr ''points_table'')]"
  let ?tr = "[(''matchId'', JStr ''m-1''), (''type'', JStr ''points_table'')]"
  have t: "trim '' m-1 '' = ''m-1''"
    by (simp add: trim_def is_ws_def)
  have a: "get_prop ?ws ''matchId'' = JStr '' m-1 ''"
    by (simp add: get_prop_def)
  have b: "get_prop ?tr ''matchId'' = JStr (trim '' m-1 '')"
    by (simp add: get_prop_def t)
  have c: "get_prop ?tr ''type'' = get_prop ?ws ''type''"
    by (simp add: get_prop_def)
  have d: "trim '' m-1 '' \<noteq> []"
    by (simp add: t)
  note w = create_trims_matchId [OF a b c d, of 0 "''http://host''" "''u1''" "[]" "(\<lambda>n. 0, 0)"]
  have run: "create_link 0 ''http://host'' ''u1'' ?ws [] (\<lambda>n. 0, 0) =
     (([sample_link], (\<lambda>n. 0, 16)),
      LinkCreated sample_link ''http://host/api/public/AAAAAAAAAAAAAAAA'')"
    by (simp add: create_link_def get_prop_def unique_loop_zero_empty t create_def validate_def
        link_types_def sample_link_def publicUrl_def Let_def)
  have "public_collection_name ''m-1'' = ''match_m_1''"
    by (simp add: public_collection_name_def t trim_def is_ws_def replace_hyphens_def)
  with w t have "public_collection_name '' m-1 '' = ''match_m_1''"
    by simp
  with w run show ?thesis
    by blast
qed


section \<open>Usage telemetry\<close>

lemma map_update_same: "f x = f (xs ! i) \<Longrightarrow> map f (xs[i := x]) = map f xs"
  by (cases "i < length xs") (simp_all add: map_update list_update_same_conv list_update_beyond)

lemma update_link_frame:
  "map accessCount (fst (update_link baseUrl uid t body dir)) = map accessCount dir
 \<and> map lastAccessed (fst (update_link baseUrl uid t body dir)) = map lastAccessed dir"
  by (simp add: update_link_def save_def Let_def map_update_same
      split: option.splits sum.splits)

lemma toggle_link_frame:
  "map accessCount (fst (toggle_link uid t dir)) = map accessCount dir
 \<and> map lastAccessed (fst (toggle_link uid t dir)) = map lastAccessed dir"
  by (simp add: toggle_link_def save_def Let_def map_update_same split: option.splits)

lemma set_status_frame:
  "map accessCount (fst (set_status uid t body dir)) = map accessCount dir
 \<and> map lastAccessed (fst (set_status uid t body dir)) = map lastAccessed dir"
  by (simp add: set_status_def save_def Let_def map_update_same
      split: option.splits jsval.splits)

lemma telemetry_kept_refl: "telemetry_kept dir dir"
  unfolding telemetry_kept_def by auto

lemma telemetry_kept_update:
  assumes "i < length dir" "linkId x = linkId (dir ! i)" "userId x = userId (dir ! i)"
    "accessCount (dir ! i) \<le> accessCount x"
  shows "telemetry_kept dir (dir[i := x])"
  unfolding telemetry_kept_def
proof
  fix l' assume "l' \<in> set (dir[i := x])"
  then have "l' = x \<or> l' \<in> set dir"
    using set_update_subset_insert [of dir i x] by auto
  then show "(\<exists>l\<in>set dir. linkId l = linkId l' \<and> userId l = userId l'
                    \<and> accessCount l \<le> accessCount l')
      \<or> (linkId l' \<notin> linkId ` set dir \<and> accessCount l' = 0 \<and> lastAccessed l' = None)"
  proof
    assume "l' = x"
    with assms nth_mem [OF assms(1)] show ?thesis
      by (intro disjI1 bexI [of _ "dir ! i"]) simp_all
  next
    assume "l' \<in> set dir"
    then show ?thesis by auto
  qed
qed

lemma telemetry_kept_subset: "set dir' \<subseteq> set dir \<Longrightarrow> telemetry_kept dir dir'"
  unfolding telemetry_kept_def by auto

lemma telemetry_kept_update_link: "telemetry_kept dir (fst (update_link baseUrl uid t body dir))"
  by (auto simp: update_link_def save_def Let_def telemetry_kept_refl
      split: option.splits sum.splits dest!: findOne_Some intro!: telemetry_kept_update)

lemma telemetry_kept_toggle_link: "telemetry_kept dir (fst (toggle_link uid t dir))"
  by (auto simp: toggle_link_def save_def Let_def telemetry_kept_refl
      split: option.splits dest!: findOne_Some intro!: telemetry_kept_update)

lemma telemetry_kept_set_status: "telemetry_kept dir (fst (set_status uid t body dir))"
  by (auto simp: set_status_def save_def Let_def telemetry_kept_refl
      split: option.splits jsval.splits dest!: findOne_Some intro!: telemetry_kept_update)

lemma telemetry_kept_public_get: "telemetry_kept dir (fst (public_get now db dir t))"
  by (auto simp: public_get_def save_def Let_def telemetry_kept_refl
      split: option.splits dest!: findOne_Some intro!: telemetry_kept_update)

lemma telemetry_kept_delete_link: "telemetry_kept dir (fst (delete_link uid t dir))"
  by (auto simp: delete_link_def findByIdAndDelete_def telemetry_kept_refl
      split: option.splits intro!: telemetry_kept_subset dest: in_set_takeD in_set_dropD)

lemma telemetry_kept_create_link:
  "telemetry_kept dir (fst (fst (create_link now baseUrl uid body dir g)))"
proof -
  obtain lid isUnique attempts g' where
    loop: "unique_loop dir None False 0 g = (lid, isUnique, attempts, g')"
    by (cases "unique_loop dir None False 0 g")
  have new: "telemetry_kept dir (dir @ [l])"
    if "findOne (\<lambda>x. linkId x = linkId l) dir = None" "accessCount l = 0" "lastAccessed l = None"
    for l
    using that unfolding telemetry_kept_def by (auto simp: findOne_None_iff)
  show ?thesis
    using loop
    by (auto simp: create_link_def create_def Let_def telemetry_kept_refl
        split: option.splits sum.splits if_splits intro!: new)
qed

text \<open>
  C9. Updating a link, toggling it and setting its status leave \<open>accessCount\<close> and
  \<open>lastAccessed\<close> of every link in the directory as they were, whatever the request's
  outcome. Under every request to the link routes and the public resolver, each link left
  in the directory has a count at least as large as before, or is a newly created link
  with count 0.
\<close>

theorem telemetry_frame:
  "map accessCount (fst (update_link baseUrl uid t body dir)) = map accessCount dir
 \<and> map lastAccessed (fst (update_link baseUrl uid t body dir)) = map lastAccessed dir
 \<and> map accessCount (fst (toggle_link uid t dir)) = map accessCount dir
 \<and> map lastAccessed (fst (toggle_link uid t dir)) = map lastAccessed dir
 \<and> map accessCount (fst (set_status uid t body dir)) = map accessCount dir
 \<and> map lastAccessed (fst (set_status uid t body dir)) = map lastAccessed dir
 \<and> telemetry_kept dir (fst (fst (handle now baseUrl db req (dir, g))))"
proof -
  have "telemetry_kept dir (fst (fst (handle now baseUrl db req (dir, g))))"
  proof (cases req)
    case (CreateLink u b)
    then show ?thesis
      by (simp add: telemetry_kept_create_link)
  next
    case (DeleteLink u l)
    with telemetry_kept_delete_link [of dir u l] show ?thesis
      by (simp add: case_prod_beta)
  next
    case (UpdateLink u l b)
    with telemetry_kept_update_link [of dir baseUrl u l b] show ?thesis
      by (simp add: case_prod_beta)
  next
    case (ToggleLink u l)
    with telemetry_kept_toggle_link [of dir u l] show ?thesis
      by (simp add: case_prod_beta)
  next
    case (SetStatus u l b)
    with telemetry_kept_set_status [of dir u l b] show ?thesis
      by (simp add: case_prod_beta)
  next
    case (PublicGet l)
    with telemetry_kept_public_get [of dir now db l] show ?thesis
      by (simp add: case_prod_beta)
  qed
  with update_link_frame [of baseUrl uid t body dir] toggle_link_frame [of uid t dir]
    set_status_frame [of uid t body dir]
  show ?thesis
    by blast
qed

theorem telemetry_frame_witness:
  "map accessCount (fst (toggle_link ''u1'' ''AAAAAAAAAAAAAAAA''
      [sample_link\<lparr>lastAccessed := Some 5, accessCount := 7\<rparr>])) = [7]
 \<and> map lastAccessed (fst (update_link ''http://host'' ''u1'' ''AAAAAAAAAAAAAAAA''
      [(''matchId'', JStr ''m-2''), (''type'', JStr ''full'')]
      [sample_link\<lparr>lastAccessed := Some 5, accessCount := 7\<rparr>])) = [Some 5]
 \<and> fst (update_link ''http://host'' ''u1'' ''AAAAAAAAAAAAAAAA''
      [(''matchId'', JStr ''m-2''), (''type'', JStr ''full'')]
      [sample_link\<lparr>lastAccessed := Some 5, accessCount := 7\<rparr>]) =
      [sample_link\<lparr>matchId := ''m-2'', type := ''full'', lastAccessed := Some 5,
                    accessCount := 7\<rparr>]
 \<and> telemetry_kept [sample_link\<lparr>lastAccessed := Some 5, accessCount := 7\<rparr>]
      (fst (fst (handle 1000 ''http://host'' sample_db (PublicGet ''AAAAAAAAAAAAAAAA'')
        ([sample_link\<lparr>lastAccessed := Some 5, accessCount := 7\<rparr>], (\<lambda>n. 0, 0)))))
 \<and> fst (fst (handle 1000 ''http://host'' sample_db (PublicGet ''AAAAAAAAAAAAAAAA'')
        ([sample_link\<lparr>lastAccessed := Some 5, accessCount := 7\<rparr>], (\<lambda>n. 0, 0)))) =
      [sample_link\<lparr>lastAccessed := Some 1000, accessCount := 8\<rparr>]"
proof -
  let ?dir = "[sample_link\<lparr>lastAccessed := Some 5, accessCount := 7\<rparr>]"
  let ?body = "[(''matchId'', JStr ''m-2''), (''type'', JStr ''full'')]"
  note w = telemetry_frame [of "''http://host''" "''u1''" "''AAAAAAAAAAAAAAAA''" ?body ?dir
      1000 sample_db "PublicGet ''AAAAAAAAAAAAAAAA''" "(\<lambda>n. 0, 0)"]
  have t: "trim ''m-2'' = ''m-2''"
    by (simp add: trim_def is_ws_def)
  have "fst (update_link ''http://host'' ''u1'' ''AAAAAAAAAAAAAAAA'' ?body ?dir) =
      [sample_link\<lparr>matchId := ''m-2'', type := ''full'', lastAccessed := Some 5,
                    accessCount := 7\<rparr>]"
    by (simp add: update_link_def get_prop_def sample_link_def save_def validate_def
        link_types_def t Let_def)
  moreover have "fst (fst (handle 1000 ''http://host'' sample_db (PublicGet ''AAAAAAAAAAAAAAAA'')
        (?dir, (\<lambda>n. 0, 0)))) = [sample_link\<lparr>lastAccessed := Some 1000, accessCount := 8\<rparr>]"
    by (simp add: public_get_def sample_link_def save_def validate_def link_types_def Let_def
        split: prod.splits option.splits)
  moreover from w have "map accessCount (fst (toggle_link ''u1'' ''AAAAAAAAAAAAAAAA'' ?dir)) = [7]"
    and "map lastAccessed (fst (update_link ''http://host'' ''u1'' ''AAAAAAAAAAAAAAAA''
      ?body ?dir)) = [Some 5]"
    and "telemetry_kept ?dir
      (fst (fst (handle 1000 ''http://host'' sample_db (PublicGet ''AAAAAAAAAAAAAAAA'')
        (?dir, (\<lambda>n. 0, 0)))))"
    by simp_all
  ultimately show ?thesis
    by blast
qed

section \<open>Reading a match directly\<close>

lemma is_ws_replace: "is_ws (if c = CHR ''-'' then CHR ''_'' else c) = is_ws c"
  by (simp add: is_ws_def)

lemma trim_replace_hyphens: "trim (replace_hyphens s) = replace_hyphens (trim s)"
proof -
  let ?f = "\<lambda>c. if c = CHR ''-'' then CHR ''_'' else c"
  have comp: "is_ws \<circ> ?f = is_ws"
    by (rule ext) (simp add: is_ws_replace)
  have dw: "dropWhile is_ws (map ?f xs) = map ?f (dropWhile is_ws xs)" for xs
    by (simp add: dropWhile_map comp)
  have "trim (map ?f s) = map ?f (trim s)"
    by (simp only: trim_def dw rev_map)
  then show ?thesis
    by (simp add: replace_hyphens_def)
qed

lemma trim_same_length: 
  assumes "length (trim s) = length s"
  shows "trim s = s"
proof -
  from trim_decomp [of s] obtain pre post where d: "s = pre @ trim s @ post"
    by blast
  then have "length s = length pre + length (trim s) + length post"
    by (metis length_append add.assoc)
  with assms have "pre = []" "post = []"
    by simp_all
  with d show ?thesis
    by simp
qed

lemma livescore_name_not_public:
  assumes "trim m \<noteq> m"
  shows "livescore_collection_name m \<noteq> public_collection_name m'"
proof
  assume "livescore_collection_name m = public_collection_name m'"
  then have eq: "replace_hyphens m = replace_hyphens (trim m')"
    by (simp add: livescore_collection_name_def public_collection_name_def)
  have "replace_hyphens (trim m) = trim (replace_hyphens m)"
    by (simp add: trim_replace_hyphens)
  also have "\<dots> = trim (replace_hyphens (trim m'))"
    by (simp only: eq)
  also have "\<dots> = replace_hyphens (trim m')"
    by (simp add: trim_replace_hyphens trim_idem)
  also have "\<dots> = replace_hyphens m"
    by (simp only: eq)
  finally have "length (replace_hyphens (trim m)) = length (replace_hyphens m)"
    by simp
  then have "length (trim m) = length m"
    by (simp add: replace_hyphens_def)
  with assms trim_same_length show False
    by blast
qed

text \<open>
  C10. The two direct routes derive the container name from the path parameter as it is.
  For a match id with white space at an end, that name differs from the name the public
  resolver derives from the same match id, and from every name the resolver derives at
  all. So the direct routes answer 404 \<open>Match not found\<close> when the store has no
  container of the untrimmed name, as in every store whose containers are all named from
  trimmed match ids, also when the container of the trimmed match id exists. The first
  route checks its \<open>type\<close> parameter before that.
\<close>

theorem livescore_not_trimmed:
  assumes "trim m \<noteq> m"
    and "ty = JStr ''points_table'' \<or> ty = JStr ''alive_status''"
  shows "livescore_collection_name m = ''match_'' @ replace_hyphens m
     \<and> public_collection_name m = ''match_'' @ replace_hyphens (trim m)
     \<and> (\<forall>m'. livescore_collection_name m \<noteq> public_collection_name m')
     \<and> (livescore_collection_name m \<notin> set (collection_names db) \<longrightarrow>
          livescore_get db m ty = Failure 404 ''Match not found''
        \<and> livescore_get_full db m = Failure 404 ''Match not found'')
     \<and> ((\<forall>n\<in>set (collection_names db). \<exists>m'. n = public_collection_name m') \<longrightarrow>
          livescore_get db m ty = Failure 404 ''Match not found''
        \<and> livescore_get_full db m = Failure 404 ''Match not found'')"
proof -
  have names: "\<forall>m'. livescore_collection_name m \<noteq> public_collection_name m'"
    using livescore_name_not_public [OF assms(1)] by blast
  have nf: "livescore_get db m ty = Failure 404 ''Match not found''
        \<and> livescore_get_full db m = Failure 404 ''Match not found''"
    if "livescore_collection_name m \<notin> set (collection_names db)"
    using that assms(2) by (auto simp: livescore_get_def livescore_get_full_def)
  have "livescore_collection_name m \<notin> set (collection_names db)"
    if "\<forall>n\<in>set (collection_names db). \<exists>m'. n = public_collection_name m'"
    using that names by blast
  with nf names show ?thesis
    by (auto simp: livescore_collection_name_def public_collection_name_def)
qed

theorem livescore_not_trimmed_witness:
  "public_collection_name '' m-1 '' \<in> set (collection_names sample_db)
 \<and> livescore_collection_name '' m-1 '' = ''match_ m_1 ''
 \<and> livescore_get sample_db '' m-1 '' (JStr ''points_table'') = Failure 404 ''Match not found''
 \<and> livescore_get_full sample_db '' m-1 '' = Failure 404 ''Match not found''
 \<and> status (livescore_get_full sample_db ''m-1'') = 200"
proof -
  have t: "trim '' m-1 '' = ''m-1''"
    by (simp add: trim_def is_ws_def)
  then have a: "trim '' m-1 '' \<noteq> '' m-1 ''"
    by simp
  have b: "JStr ''points_table'' = JStr ''points_table'' \<or> JStr ''points_table'' = JStr ''alive_status''"
    by simp
  note w = livescore_not_trimmed [OF a b, of sample_db]
  have n: "public_collection_name '' m-1 '' = ''match_m_1''"
    by (simp add: public_collection_name_def t replace_hyphens_def)
  have d: "\<forall>n\<in>set (collection_names sample_db). \<exists>m'. n = public_collection_name m'"
    using n by (auto simp: collection_names_def sample_db_def intro: exI [of _ "'' m-1 ''"])
  from w d have "livescore_get sample_db '' m-1 '' (JStr ''points_table'') =
      Failure 404 ''Match not found''"
    and "livescore_get_full sample_db '' m-1 '' = Failure 404 ''Match not found''"
    by blast+
  moreover from w have "livescore_collection_name '' m-1 '' = ''match_ m_1 ''"
    by (simp add: replace_hyphens_def)
  moreover from n have "public_collection_name '' m-1 '' \<in> set (collection_names sample_db)"
    by (simp add: collection_names_def sample_db_def)
  moreover have "status (livescore_get_full sample_db ''m-1'') = 200"
    by (simp add: livescore_get_full_def livescore_collection_name_def replace_hyphens_def
        collection_names_def collection_def sample_db_def Let_def)
  ultimately show ?thesis
    by blast
qed


section \<open>The view projection\<close>

lemma js_or_absent: "map_of d k = None \<Longrightarrow> js_or (get_prop d k) e = e"
  by (simp add: js_or_def get_prop_def)

lemma js_or_container:
  "map_of d k = Some (JArr xs) \<Longrightarrow> js_or (get_prop d k) e = JArr xs"
  "map_of d k = Some (JObj kvs) \<Longrightarrow> js_or (get_prop d k) e = JObj kvs"
  by (simp_all add: js_or_def get_prop_def)

text \<open>
  C4. The projection is a total function of the document. For \<open>points_table\<close> it is
  the object of \<open>pointsTable\<close> and \<open>matchSummary\<close>, for \<open>alive_status\<close> the object
  of \<open>teamStats\<close> and \<open>matchSummary\<close>: each member is the document's field when that
  is truthy, as every array and object is, and the empty list or object otherwise, so
  when the field is absent. For \<open>full\<close> it is the whole document. The direct route
  projects as the public resolver does. Both handlers answer 200 with the projection of
  the latest snapshot, whatever fields it lacks.
\<close>

theorem view_projection_total:
  "public_response_data ''points_table'' d =
     JObj [(''pointsTable'', if truthy (get_prop d ''pointsTable'')
                             then get_prop d ''pointsTable'' else JArr []),
           (''matchSummary'', if truthy (get_prop d ''MatchSummary1'')
                              then get_prop d ''MatchSummary1'' else JObj [])]
 \<and> public_response_data ''alive_status'' d =
     JObj [(''teamStats'', if truthy (get_prop d ''TeamStats1'')
                           then get_prop d ''TeamStats1'' else JArr []),
           (''matchSummary'', if truthy (get_prop d ''MatchSummary1'')
                              then get_prop d ''MatchSummary1'' else JObj [])]
 \<and> public_response_data ''full'' d = JObj d
 \<and> livescore_response_data (JStr ''points_table'') d = public_response_data ''points_table'' d
 \<and> livescore_response_data (JStr ''alive_status'') d = public_response_data ''alive_status'' d
 \<and> (map_of d ''pointsTable'' = None \<and> map_of d ''TeamStats1'' = None
      \<and> map_of d ''MatchSummary1'' = None \<longrightarrow>
      public_response_data ''points_table'' d =
        JObj [(''pointsTable'', JArr []), (''matchSummary'', JObj [])]
    \<and> public_response_data ''alive_status'' d =
        JObj [(''teamStats'', JArr []), (''matchSummary'', JObj [])])
 \<and> (map_of d ''pointsTable'' = Some (JArr ps) \<and> map_of d ''TeamStats1'' = Some (JArr ts)
      \<and> map_of d ''MatchSummary1'' = Some (JObj ms) \<longrightarrow>
      public_response_data ''points_table'' d =
        JObj [(''pointsTable'', JArr ps), (''matchSummary'', JObj ms)]
    \<and> public_response_data ''alive_status'' d =
        JObj [(''teamStats'', JArr ts), (''matchSummary'', JObj ms)])
 \<and> (findOne (\<lambda>x. linkId x = t \<and> isActive x) dir = Some i \<and> validate (dir ! i)
      \<and> public_collection_name (matchId (dir ! i)) \<in> set (collection_names db)
      \<and> find_latest (collection db (public_collection_name (matchId (dir ! i)))) = Some s \<longrightarrow>
      snd (public_get now db dir t) =
        MatchData (get_prop (as_document s) ''matchId'') (get_prop (as_document s) ''timestamp'')
          (public_response_data (type (dir ! i)) (as_document s)))
 \<and> (ty \<in> {''points_table'', ''alive_status''}
      \<and> livescore_collection_name m \<in> set (collection_names db)
      \<and> find_latest (collection db (livescore_collection_name m)) = Some s \<longrightarrow>
      livescore_get db m (JStr ty) =
        MatchData (get_prop (as_document s) ''matchId'') (get_prop (as_document s) ''timestamp'')
          (public_response_data ty (as_document s))
    \<and> livescore_get_full db m =
        MatchData (get_prop (as_document s) ''matchId'') (get_prop (as_document s) ''timestamp'')
          (public_response_data ''full'' (as_document s)))"
  (is "?A \<and> ?B \<and> ?C \<and> ?D \<and> ?E \<and> ?F \<and> ?G \<and> ?H \<and> ?I")
proof -
  have A: ?A and B: ?B and C: ?C
    by (simp_all add: public_response_data_def js_or_def)
  have D: ?D and E: ?E
    by (simp_all add: public_response_data_def livescore_response_data_def)
  have F: ?F
    by (simp add: public_response_data_def js_or_absent)
  have G: ?G
    by (simp add: public_response_data_def js_or_container)
  have H: ?H
    by (simp add: public_get_found)
  have I: ?I
    by (auto simp: livescore_get_def livescore_get_full_def Let_def public_response_data_def
        livescore_response_data_def)
  from A B C D E F G H I show ?thesis
    by blast
qed

theorem view_projection_total_witness:
  "public_response_data ''alive_status''
      [(''timestamp'', JDate 1), (''matchId'', JStr ''m-1''),
       (''pointsTable'', JArr [JObj [(''team'', JStr ''A''), (''pts'', JNum 10)]])] =
     JObj [(''teamStats'', JArr []), (''matchSummary'', JObj [])]
 \<and> public_response_data ''points_table''
      [(''timestamp'', JDate 1), (''matchId'', JStr ''m-1''),
       (''pointsTable'', JArr [JObj [(''team'', JStr ''A''), (''pts'', JNum 10)]])] =
     JObj [(''pointsTable'', JArr [JObj [(''team'', JStr ''A''), (''pts'', JNum 10)]]),
           (''matchSummary'', JObj [])]
 \<and> snd (public_get 1000 sample_db [sample_link] ''AAAAAAAAAAAAAAAA'') =
     MatchData (JStr ''m-1'') (JDate 1)
       (JObj [(''pointsTable'', JArr [JObj [(''team'', JStr ''A''), (''pts'', JNum 10)]]),
              (''matchSummary'', JObj [])])
 \<and> livescore_get sample_db ''m-1'' (JStr ''alive_status'') =
     MatchData (JStr ''m-1'') (JDate 1)
       (JObj [(''teamStats'', JArr []), (''matchSummary'', JObj [])])"
proof -
  let ?d = "[(''timestamp'', JDate 1), (''matchId'', JStr ''m-1''),
       (''pointsTable'', JArr [JObj [(''team'', JStr ''A''), (''pts'', JNum 10)]])]"
  let ?s = "\<lparr>timestamp = 1, rest = [(''matchId'', JStr ''m-1''),
         (''pointsTable'', JArr [JObj [(''team'', JStr ''A''), (''pts'', JNum 10)]])]\<rparr>"
  have d: "as_document ?s = ?d"
    by (simp add: as_document_def)
  note w = view_projection_total [where d = ?d and t = "''AAAAAAAAAAAAAAAA''"
      and dir = "[sample_link]" and i = 0 and db = sample_db and s = ?s and now = 1000
      and ty = "''alive_status''" and m = "''m-1''"]
  from w have a: "public_response_data ''alive_status'' ?d =
     JObj [(''teamStats'', JArr []), (''matchSummary'', JObj [])]"
    by (simp add: get_prop_def)
  from w have b: "public_response_data ''points_table'' ?d =
     JObj [(''pointsTable'', JArr [JObj [(''team'', JStr ''A''), (''pts'', JNum 10)]]),
           (''matchSummary'', JObj [])]"
    by (simp add: get_prop_def)
  have n: "public_collection_name ''m-1'' = ''match_m_1''"
      "livescore_collection_name ''m-1'' = ''match_m_1''"
    by (simp_all add: public_collection_name_def livescore_collection_name_def trim_def
        is_ws_def replace_hyphens_def)
  have f: "findOne (\<lambda>x. linkId x = ''AAAAAAAAAAAAAAAA'' \<and> isActive x) [sample_link] = Some 0"
    by (simp add: sample_link_def)
  have v: "validate ([sample_link] ! 0)"
    by (simp add: validate_def sample_link_def link_types_def)
  have m: "matchId ([sample_link] ! 0) = ''m-1''" "type ([sample_link] ! 0) = ''points_table''"
    by (simp_all add: sample_link_def)
  have l: "find_latest (collection sample_db ''match_m_1'') = Some ?s"
    "''match_m_1'' \<in> set (collection_names sample_db)"
    by (simp_all add: collection_def collection_names_def sample_db_def)
  from w f v m n l b d
  have c: "snd (public_get 1000 sample_db [sample_link] ''AAAAAAAAAAAAAAAA'') =
     MatchData (JStr ''m-1'') (JDate 1)
       (JObj [(''pointsTable'', JArr [JObj [(''team'', JStr ''A''), (''pts'', JNum 10)]]),
              (''matchSummary'', JObj [])])"
    by (simp add: get_prop_def)
  from w n l a d
  have e: "livescore_get sample_db ''m-1'' (JStr ''alive_status'') =
     MatchData (JStr ''m-1'') (JDate 1)
       (JObj [(''teamStats'', JArr []), (''matchSummary'', JObj [])])"
    by (simp add: get_prop_def)
  from a b c e show ?thesis
    by blast
qed

section \<open>The directory invariant\<close>

text \<open>
  The empty directory has unique tokens and only links that the schema accepts, and every
  request keeps both: these are the directories that the hypotheses above speak of.
\<close>

lemma directory_ok_empty: "directory_ok []"
  by (simp add: directory_ok_def)

lemma directory_ok_update:
  assumes "directory_ok dir" "linkId x = linkId (dir ! i)" "validate x"
  shows "directory_ok (dir[i := x])"
proof -
  from assms(2) have "map linkId (dir[i := x]) = map linkId dir"
    by (rule map_update_same)
  moreover have "set (dir[i := x]) \<subseteq> insert x (set dir)"
    by (rule set_update_subset_insert)
  ultimately show ?thesis
    using assms(1,3) by (auto simp: directory_ok_def)
qed

lemma directory_ok_delete:
  assumes "directory_ok dir"
  shows "directory_ok (findByIdAndDelete i dir)"
proof -
  have "dir = take i dir @ drop i dir"
    by simp
  with assms have d: "distinct (map linkId (take i dir) @ map linkId (drop i dir))"
    by (metis directory_ok_def map_append)
  have "set (drop (Suc i) dir) \<subseteq> set (drop i dir)"
    by (simp add: set_drop_subset_set_drop)
  moreover have "distinct (map linkId (drop (Suc i) dir))"
    using assms by (simp add: directory_ok_def distinct_drop drop_map [symmetric])
  ultimately have "distinct (map linkId (take i dir @ drop (Suc i) dir))"
    using d by auto
  moreover have "\<forall>l\<in>set (take i dir @ drop (Suc i) dir). validate l"
    using assms by (auto simp: directory_ok_def dest: in_set_takeD in_set_dropD)
  ultimately show ?thesis
    by (simp add: directory_ok_def findByIdAndDelete_def)
qed

lemma directory_ok_create:
  assumes "directory_ok dir" "create l dir = Inr dir'"
  shows "directory_ok dir'"
proof -
  from assms(2) have v: "validate l" and n: "findOne (\<lambda>x. linkId x = linkId l) dir = None"
    and d: "dir' = dir @ [l]"
    by (auto simp: create_def split: if_splits)
  from n have "linkId l \<notin> linkId ` set dir"
    by (simp add: findOne_linkId_None)
  with assms(1) v d show ?thesis
    by (auto simp: directory_ok_def)
qed

lemma directory_ok_save:
  assumes "directory_ok dir" "save i x dir = Inr dir'" "linkId x = linkId (dir ! i)"
  shows "directory_ok dir'"
  using assms directory_ok_update [of dir x i]
  by (auto simp: save_def split: if_splits)

lemma public_get_keeps_ok:
  assumes "directory_ok dir"
  shows "directory_ok (fst (public_get now db dir t))"
  using assms
  by (auto simp: public_get_def Let_def split: sum.splits option.splits
      intro: directory_ok_save)

lemma toggle_link_keeps_ok:
  assumes "directory_ok dir"
  shows "directory_ok (fst (toggle_link uid t dir))"
  using assms
  by (auto simp: toggle_link_def Let_def split: sum.splits option.splits
      intro: directory_ok_save)

lemma set_status_keeps_ok:
  assumes "directory_ok dir"
  shows "directory_ok (fst (set_status uid t body dir))"
  using assms
  by (auto simp: set_status_def Let_def split: sum.splits option.splits jsval.splits
      intro: directory_ok_save)

lemma update_link_keeps_ok:
  assumes "directory_ok dir"
  shows "directory_ok (fst (update_link baseUrl uid t body dir))"
  using assms
  by (auto simp: update_link_def Let_def split: sum.splits option.splits
      intro: directory_ok_save)

lemma delete_link_keeps_ok:
  assumes "directory_ok dir"
  shows "directory_ok (fst (delete_link uid t dir))"
  using assms by (simp add: delete_link_def directory_ok_delete split: option.splits)

lemma create_link_keeps_ok:
  assumes "directory_ok dir"
  shows "directory_ok (fst (fst (create_link now baseUrl uid body dir g)))"
proof -
  obtain lid isUnique attempts g' where
    loop: "unique_loop dir None False 0 g = (lid, isUnique, attempts, g')"
    by (cases "unique_loop dir None False 0 g")
  from loop assms show ?thesis
    by (auto simp: create_link_def Let_def split: sum.splits option.splits
        intro: directory_ok_create)
qed

lemma handle_keeps_directory_ok:
  assumes "directory_ok dir"
  shows "directory_ok (fst (fst (handle now baseUrl db req (dir, g))))"
  using assms
  by (cases req)
    (simp_all add: case_prod_beta create_link_keeps_ok delete_link_keeps_ok update_link_keeps_ok
      toggle_link_keeps_ok set_status_keeps_ok public_get_keeps_ok)

end
